theory Spec2Isabelle
  imports Main
begin

section \<open>JavaScript strings\<close>

text \<open>
  Module texts, URLs and paths are JavaScript strings. They are modelled as \<open>string\<close>;
  offsets count list positions. The offsets the code passes to \<open>slice\<close> and
  \<open>substring\<close> are the non-negative positions the lexer reports, so they are
  \<open>nat\<close>; on those \<open>slice\<close> and \<open>substring\<close> clamp at the end of the string, as
  \<open>take\<close> and \<open>drop\<close> do.
\<close>

definition startsWith :: "string \<Rightarrow> string \<Rightarrow> bool" where
  \<comment> \<open>\<open>str.startsWith(pre)\<close>\<close>
  "startsWith str pre = (take (length pre) str = pre)"

definition endsWith :: "string \<Rightarrow> string \<Rightarrow> bool" where
  \<comment> \<open>\<open>str.endsWith(suf)\<close>\<close>
  "endsWith str suf = (length suf \<le> length str \<and> drop (length str - length suf) str = suf)"

fun includes_str :: "string \<Rightarrow> string \<Rightarrow> bool" where
  \<comment> \<open>\<open>str.indexOf(pat) > -1\<close>\<close>
  "includes_str [] pat = (pat = [])"
| "includes_str (c # cs) pat = (startsWith (c # cs) pat \<or> includes_str cs pat)"

definition slice_to :: "string \<Rightarrow> nat \<Rightarrow> string" where
  \<comment> \<open>\<open>str.slice(0, end)\<close>\<close>
  "slice_to str en = take en str"

definition slice_from :: "string \<Rightarrow> nat \<Rightarrow> string" where
  \<comment> \<open>\<open>str.slice(start)\<close>\<close>
  "slice_from str st = drop st str"

definition substring :: "string \<Rightarrow> nat \<Rightarrow> nat \<Rightarrow> string" where
  \<comment> \<open>\<open>str.substring(a, b)\<close>: the arguments are swapped when \<open>a > b\<close>\<close>
  "substring str a b = (if a \<le> b then take (b - a) (drop a str) else take (a - b) (drop b str))"


section \<open>Paths\<close>

text \<open>
  \<open>path.join\<close>, \<open>path.resolve\<close> and \<open>path.relative\<close> belong to Node.js, not to this
  repository. They are modelled for a POSIX host, where the separator is \<open>/\<close>, on the
  segments of a path: \<open>normalizeString\<close> drops empty segments and \<open>.\<close>, and lets \<open>..\<close>
  remove the segment before it; above the root \<open>..\<close> is dropped, above a relative start it
  is kept. \<open>process.cwd()\<close> is the parameter \<open>cwd\<close>.
\<close>

fun split_path :: "string \<Rightarrow> string list" where
  \<comment> \<open>the segments between the separators\<close>
  "split_path [] = [] # []"
| "split_path (c # cs) =
     (if c = CHR ''/'' then [] # split_path cs
      else (case split_path cs of [] \<Rightarrow> [c] # [] | seg # segs \<Rightarrow> (c # seg) # segs))"

fun join_path :: "string list \<Rightarrow> string" where
  \<comment> \<open>\<open>segments.join("/")\<close>\<close>
  "join_path [] = []"
| "join_path [seg] = seg"
| "join_path (seg # segs) = seg @ ''/'' @ join_path segs"

fun normalizeSegments :: "bool \<Rightarrow> string list \<Rightarrow> string list \<Rightarrow> string list" where
  \<comment> \<open>\<open>res\<close> holds the segments kept so far, the last one first\<close>
  "normalizeSegments allowAboveRoot res [] = rev res"
| "normalizeSegments allowAboveRoot res (seg # segs) =
     (if seg = [] \<or> seg = ''.'' then normalizeSegments allowAboveRoot res segs
      else if seg = ''..'' then
        (case res of
           r # rs \<Rightarrow>
             if r \<noteq> ''..'' then normalizeSegments allowAboveRoot rs segs
             else if allowAboveRoot then normalizeSegments allowAboveRoot (''..'' # res) segs
             else normalizeSegments allowAboveRoot res segs
         | [] \<Rightarrow>
             if allowAboveRoot then normalizeSegments allowAboveRoot [''..''] segs
             else normalizeSegments allowAboveRoot [] segs)
      else normalizeSegments allowAboveRoot (seg # res) segs)"

definition normalizeString :: "string \<Rightarrow> bool \<Rightarrow> string" where
  "normalizeString path allowAboveRoot =
     join_path (normalizeSegments allowAboveRoot [] (split_path path))"

definition path_normalize :: "string \<Rightarrow> string" where
  \<comment> \<open>\<open>path.normalize\<close>\<close>
  "path_normalize path =
     (if path = [] then ''.''
      else let isAbsolute = (hd path = CHR ''/'');
               trailingSeparator = (last path = CHR ''/'');
               p = normalizeString path (\<not> isAbsolute)
           in if p = [] then (if isAbsolute then ''/'' else if trailingSeparator then ''./'' else ''.'')
              else let p' = (if trailingSeparator then p @ ''/'' else p)
                   in if isAbsolute then ''/'' @ p' else p')"

definition path_join :: "string list \<Rightarrow> string" where
  \<comment> \<open>\<open>path.join(...args)\<close>: the non-empty arguments joined by \<open>/\<close>, then normalized\<close>
  "path_join args =
     (case filter (\<lambda>arg. arg \<noteq> []) args of
        [] \<Rightarrow> ''.''
      | parts \<Rightarrow> path_normalize (join_path parts))"

fun resolve_from_right :: "string list \<Rightarrow> string \<Rightarrow> string" where
  \<comment> \<open>the loop of \<open>path.resolve\<close>: the arguments from the right, then the working
      directory, until an absolute one is met\<close>
  "resolve_from_right [] resolvedPath = resolvedPath"
| "resolve_from_right (p # ps) resolvedPath =
     (if p = [] then resolve_from_right ps resolvedPath
      else if hd p = CHR ''/'' then p @ ''/'' @ resolvedPath
      else resolve_from_right ps (p @ ''/'' @ resolvedPath))"

definition path_resolve :: "string \<Rightarrow> string list \<Rightarrow> string" where
  \<comment> \<open>\<open>path.resolve(...args)\<close> in the working directory \<open>cwd\<close>\<close>
  "path_resolve cwd args =
     (let resolvedPath = resolve_from_right (rev args @ [cwd]) [];
          resolvedAbsolute = startsWith resolvedPath ''/'';
          p = normalizeString resolvedPath (\<not> resolvedAbsolute)
      in if resolvedAbsolute then ''/'' @ p else if p \<noteq> [] then p else ''.'')"

fun strip_common :: "string list \<Rightarrow> string list \<Rightarrow> string list \<times> string list" where
  \<comment> \<open>what is left of two segment lists after their longest common prefix\<close>
  "strip_common (x # xs) (y # ys) = (if x = y then strip_common xs ys else (x # xs, y # ys))"
| "strip_common xs ys = (xs, ys)"

definition path_relative :: "string \<Rightarrow> string \<Rightarrow> string \<Rightarrow> string" where
  \<comment> \<open>\<open>path.relative(from, to)\<close>: one \<open>..\<close> for each segment of \<open>from\<close> below the common
      directory, then the segments of \<open>to\<close> below it\<close>
  "path_relative cwd from to =
     (if from = to then []
      else let from' = path_resolve cwd [from]; to' = path_resolve cwd [to]
           in if from' = to' then []
              else (case strip_common (filter (\<lambda>seg. seg \<noteq> []) (split_path from'))
                                      (filter (\<lambda>seg. seg \<noteq> []) (split_path to')) of
                      (ups, rest) \<Rightarrow> join_path (map (\<lambda>_. ''..'') ups @ rest)))"

definition path_dirname :: "string \<Rightarrow> string" where
  \<comment> \<open>\<open>path.dirname\<close> of a normalized path: the path without its last segment\<close>
  "path_dirname path =
     (let segs = filter (\<lambda>seg. seg \<noteq> []) (split_path path)
      in if startsWith path ''/'' then ''/'' @ join_path (butlast segs)
         else if butlast segs = [] then ''.'' else join_path (butlast segs))"


section \<open>Import occurrences\<close>

text \<open>
  \<open>const [imports] = parse(code)\<close> calls the lexer of the package es-module-lexer, which is
  not part of this repository. Its answer is a parameter \<open>imports\<close> of the functions
  below: one record per import occurrence, with the fields the code reads.
  \<open>s\<close> and \<open>e\<close> are the start and end of the specifier in the text, \<open>d\<close> is \<open>-1\<close> for a
  static import and the position of the dynamic import otherwise (\<open>-2\<close> for
  \<open>import.meta\<close>), \<open>n\<close> is the module name when the specifier is a string literal and
  \<open>undefined\<close> (\<open>None\<close>) otherwise.
\<close>

record ImportSpecifier =
  s :: nat
  e :: nat
  d :: int
  n :: "string option"


section \<open>rewriteImports\<close>

definition isBare :: "string option \<Rightarrow> bool" where
  \<comment> \<open>\<open>name && !name.startsWith("/") && !name.startsWith(".")\<close>; \<open>undefined\<close> and the
      empty string are falsy\<close>
  "isBare name = (case name of
       None \<Rightarrow> False
     | Some nm \<Rightarrow> nm \<noteq> [] \<and> \<not> startsWith nm ''/'' \<and> \<not> startsWith nm ''.'')"

definition rewriteOne :: "ImportSpecifier \<Rightarrow> string \<Rightarrow> string" where
  \<comment> \<open>the body of the loop of \<open>rewriteImports\<close>, on the text rewritten so far\<close>
  "rewriteOne imp rewrittenCode =
     (if isBare (n imp)
      then slice_to rewrittenCode (s imp) @ (''/@modules/'' @ the (n imp))
             @ slice_from rewrittenCode (e imp)
      else rewrittenCode)"

definition rewriteImports :: "ImportSpecifier list \<Rightarrow> string \<Rightarrow> string" where
  \<comment> \<open>\<open>for (let i = imports.length - 1; i >= 0; i--)\<close>: the last occurrence is rewritten
      first\<close>
  "rewriteImports imports code = foldr rewriteOne imports code"

fun spans_ok :: "nat \<Rightarrow> ImportSpecifier list \<Rightarrow> nat \<Rightarrow> bool" where
  \<comment> \<open>the occurrences lie in the text from \<open>pos\<close> on, in ascending order, without overlap\<close>
  "spans_ok pos [] len = (pos \<le> len)"
| "spans_ok pos (imp # imps) len = (pos \<le> s imp \<and> s imp \<le> e imp \<and> spans_ok (e imp) imps len)"

fun render :: "nat \<Rightarrow> ImportSpecifier list \<Rightarrow> string \<Rightarrow> string" where
  \<comment> \<open>the edit list read against the original text, from \<open>pos\<close> on\<close>
  "render pos [] code = drop pos code"
| "render pos (imp # imps) code =
     take (s imp - pos) (drop pos code)
     @ (if isBare (n imp) then ''/@modules/'' @ the (n imp)
        else take (e imp - s imp) (drop (s imp) code))
     @ render (e imp) imps code"


section \<open>Errors and responses\<close>

datatype error =
    ENOENT string              \<comment> \<open>\<open>fs.readFile\<close> rejected: no file at this path\<close>
  | JSONSyntaxError            \<comment> \<open>\<open>JSON.parse\<close> threw\<close>
  | TypeError                  \<comment> \<open>a property of \<open>null\<close> or \<open>undefined\<close> was read, or a
                                   path argument was not a string\<close>
  | BuildFailure string        \<comment> \<open>\<open>build\<close> of esbuild rejected, with its message\<close>
  | MagicStringError string    \<comment> \<open>\<open>overwrite\<close> of magic-string threw\<close>

text \<open>
  What a request handler leaves in the Koa context: only the fields it assigns.
  \<open>None\<close> is a field the handler did not set. \<open>context.type\<close> is the field
  \<open>ctype\<close>; the variable \<open>id\<close> of the source is written \<open>ident\<close> throughout.
\<close>

record response =
  status :: "nat option"
  ctype :: "string option"
  body :: "string option"

datatype route = ModulesRoute | HtmlRoute | JsRoute | CssRoute | VueRoute | AssetRoute

definition request_url :: "string \<Rightarrow> string" where
  \<comment> \<open>\<open>context.request.url === "/" ? "/index.html" : context.request.url\<close>\<close>
  "request_url u = (if u = ''/'' then ''/index.html'' else u)"

definition route_of :: "string \<Rightarrow> route" where
  \<comment> \<open>the chain of conditions of the middleware of index.js, in its order\<close>
  "route_of url =
     (if includes_str url ''@modules'' then ModulesRoute
      else if endsWith url ''.html'' then HtmlRoute
      else if endsWith url ''.js'' then JsRoute
      else if endsWith url ''.css'' then CssRoute
      else if endsWith url ''.vue'' then VueRoute
      else AssetRoute)"

definition readFile :: "(string \<rightharpoonup> string) \<Rightarrow> string \<Rightarrow> error + string" where
  \<comment> \<open>\<open>await fs.readFile(path, "utf-8")\<close> on the files \<open>fs\<close>\<close>
  "readFile fs path = (case fs path of None \<Rightarrow> Inl (ENOENT path) | Some text \<Rightarrow> Inr text)"


section \<open>The .js request handler\<close>

text \<open>
  The branch \<open>url.endsWith(".js")\<close> of index.js. \<open>lexer\<close> is the lexer of
  es-module-lexer as a table from module texts to the occurrences it reports; \<open>None\<close> is
  a text on which \<open>parse\<close> throws. Every exception ends in the \<open>catch\<close>, which only
  sets the status.
\<close>

definition jsHandler ::
  "(string \<rightharpoonup> string) \<Rightarrow> (string \<rightharpoonup> ImportSpecifier list) \<Rightarrow> string \<Rightarrow> string \<Rightarrow> response" where
  "jsHandler fs lexer rootDir url =
     (let filepath = path_join [rootDir, url]
      in case readFile fs filepath of
           Inl err \<Rightarrow> \<lparr>status = Some 404, ctype = None, body = None\<rparr>
         | Inr code \<Rightarrow>
             (case lexer code of
                None \<Rightarrow> \<lparr>status = Some 404, ctype = None, body = None\<rparr>
              | Some imports \<Rightarrow>
                  \<lparr>status = None, ctype = Some ''application/javascript'',
                   body = Some (rewriteImports imports code)\<rparr>))"


section \<open>resolveImports\<close>

text \<open>
  \<open>MagicString\<close> belongs to the package magic-string. It keeps the original text and
  the replacements made on it, all of them in offsets of the original.
  \<open>overwrite(start, end, content)\<close> throws on a range that is empty or reversed, that
  ends after the text, or that cuts into a range already replaced; a range already
  replaced that lies inside the new one is replaced with it. \<open>toString\<close> reads the
  replacements from left to right.
\<close>

record MagicString =
  original :: string
  edits :: "(nat \<times> nat \<times> string) list"

definition newMagicString :: "string \<Rightarrow> MagicString" where
  "newMagicString code = \<lparr>original = code, edits = []\<rparr>"

definition cuts_into :: "nat \<Rightarrow> nat \<Rightarrow> nat \<times> nat \<times> string \<Rightarrow> bool" where
  \<comment> \<open>the range \<open>[st, en)\<close> meets the replaced range without holding all of it\<close>
  "cuts_into st en ed =
     (case ed of (a, b, c) \<Rightarrow> a < en \<and> st < b \<and> \<not> (st \<le> a \<and> b \<le> en))"

definition inside :: "nat \<Rightarrow> nat \<Rightarrow> nat \<times> nat \<times> string \<Rightarrow> bool" where
  "inside st en ed = (case ed of (a, b, c) \<Rightarrow> st \<le> a \<and> b \<le> en)"

definition overwrite :: "nat \<Rightarrow> nat \<Rightarrow> string \<Rightarrow> MagicString \<Rightarrow> error + MagicString" where
  "overwrite st en content ms =
     (if length (original ms) < en then Inl (MagicStringError ''end is out of bounds'')
      else if st = en then Inl (MagicStringError ''Cannot overwrite a zero-length range'')
      else if en < st then Inl (MagicStringError ''end must be greater than start'')
      else if list_ex (cuts_into st en) (edits ms)
        then Inl (MagicStringError ''Cannot split a chunk that has already been edited'')
      else Inr (ms\<lparr>edits := insort_key fst (st, en, content)
                              (filter (\<lambda>ed. \<not> inside st en ed) (edits ms))\<rparr>))"

fun apply_edits :: "nat \<Rightarrow> (nat \<times> nat \<times> string) list \<Rightarrow> string \<Rightarrow> string" where
  "apply_edits pos [] text = drop pos text"
| "apply_edits pos ((a, b, c) # eds) text =
     take (a - pos) (drop pos text) @ c @ apply_edits b eds text"

definition toString :: "MagicString \<Rightarrow> string" where
  "toString ms = apply_edits 0 (edits ms) (original ms)"

definition normalizedPath :: "string \<Rightarrow> string \<Rightarrow> string \<Rightarrow> string" where
  \<comment> \<open>\<open>"/" + path.relative(process.cwd(), path.resolve(currentDir, importPath))
        .replace(/\\/g, "/")\<close>\<close>
  "normalizedPath cwd currentDir importPath =
     ''/'' @ map (\<lambda>c. if c = CHR 0x5C then CHR ''/'' else c)
               (path_relative cwd cwd (path_resolve cwd [currentDir, importPath]))"

fun resolveLoop ::
  "string \<Rightarrow> string \<Rightarrow> string \<Rightarrow> ImportSpecifier list \<Rightarrow> MagicString \<Rightarrow> error + MagicString" where
  \<comment> \<open>\<open>for (let i = 0; i < imports.length; i++)\<close>, with its two \<open>continue\<close>\<close>
  "resolveLoop cwd currentDir code [] magicString = Inr magicString"
| "resolveLoop cwd currentDir code (imp # imps) magicString =
     (if -1 < d imp then resolveLoop cwd currentDir code imps magicString
      else let importPath = substring code (s imp) (e imp)
           in if startsWith importPath ''/'' then resolveLoop cwd currentDir code imps magicString
              else (case overwrite (s imp) (e imp) (normalizedPath cwd currentDir importPath)
                           magicString of
                      Inl err \<Rightarrow> Inl err
                    | Inr magicString' \<Rightarrow> resolveLoop cwd currentDir code imps magicString'))"

definition resolveImports ::
  "string \<Rightarrow> ImportSpecifier list \<Rightarrow> string \<Rightarrow> string \<Rightarrow> error + string" where
  \<comment> \<open>\<open>resolveImports(code, currentDir)\<close>, with \<open>imports\<close> what \<open>parse(code)\<close> reports and
      \<open>cwd\<close> the working directory of the process\<close>
  "resolveImports cwd imports code currentDir =
     (if imports = [] then Inr code
      else (case resolveLoop cwd currentDir code imports (newMagicString code) of
              Inl err \<Rightarrow> Inl err
            | Inr magicString \<Rightarrow> Inr (toString magicString)))"


section \<open>Package manifests\<close>

text \<open>
  What \<open>JSON.parse\<close> returns. Only whether a number is zero matters below, so numbers
  are integers. An object is the list of its properties, each name once.
\<close>

datatype json =
    JNull
  | JBool bool
  | JNum int
  | JStr string
  | JArr "json list"
  | JObj "(string \<times> json) list"

fun getProp :: "json \<Rightarrow> string \<Rightarrow> error + json option" where
  \<comment> \<open>\<open>pkg.name\<close>: a \<open>TypeError\<close> on \<open>null\<close>, \<open>undefined\<close> (\<open>None\<close>) where there is no such
      property\<close>
  "getProp JNull name = Inl TypeError"
| "getProp (JObj props) name = Inr (map_of props name)"
| "getProp v name = Inr None"

fun truthy :: "json option \<Rightarrow> bool" where
  "truthy None = False"
| "truthy (Some JNull) = False"
| "truthy (Some (JBool b)) = b"
| "truthy (Some (JNum i)) = (i \<noteq> 0)"
| "truthy (Some (JStr str)) = (str \<noteq> [])"
| "truthy (Some v) = True"

definition entryPoint_of :: "json \<Rightarrow> error + json" where
  \<comment> \<open>\<open>pkg.module || pkg.main || "index.js"\<close>\<close>
  "entryPoint_of pkg =
     (case getProp pkg ''module'' of
        Inl err \<Rightarrow> Inl err
      | Inr m \<Rightarrow>
          if truthy m then Inr (the m)
          else (case getProp pkg ''main'' of
                  Inl err \<Rightarrow> Inl err
                | Inr mn \<Rightarrow> if truthy mn then Inr (the mn) else Inr (JStr ''index.js'')))"


section \<open>The server\<close>

text \<open>
  The state of one server: \<open>depCache\<close> is the map of that name, \<open>console\<close> the lines
  written by \<open>console.log\<close> and \<open>console.error\<close> (the error object printed after the
  message is left out). \<open>buildCalls\<close> and \<open>awaiting\<close> are not variables of the code but
  the history of the bundler: \<open>buildCalls\<close> holds, in order, the package and the entry
  file of every call of \<open>build\<close>; the position of a call in it is its ticket.
  \<open>awaiting\<close> holds the tickets of the calls of \<open>optimizeDep\<close> that are suspended at
  \<open>await build(...)\<close>.
\<close>

record server =
  depCache :: "string \<rightharpoonup> string"
  console :: "string list"
  buildCalls :: "(string \<times> string) list"
  awaiting :: "nat list"

text \<open>
  What the server reads: the root directory, the files on disk, \<open>JSON.parse\<close> as a
  function (\<open>None\<close> where it throws), and the bundler as a function from the entry file
  to what \<open>build\<close> settles with: a rejection, or the texts of \<open>result.outputFiles\<close>.
\<close>

record env =
  rootDir :: string
  files :: "string \<rightharpoonup> string"
  JSON_parse :: "string \<Rightarrow> json option"
  build :: "string \<Rightarrow> error + string list"

definition nodeModulesDir :: "env \<Rightarrow> string" where
  \<comment> \<open>\<open>path.join(rootDir, "node_modules")\<close>\<close>
  "nodeModulesDir en = path_join [rootDir en, ''node_modules'']"

definition console_error :: "string \<Rightarrow> server \<Rightarrow> server" where
  "console_error line srv = srv\<lparr>console := console srv @ [line]\<rparr>"

definition resolveBareModule_try :: "env \<Rightarrow> string \<Rightarrow> error + string" where
  \<comment> \<open>the \<open>try\<close> block of \<open>resolveBareModule\<close>\<close>
  "resolveBareModule_try en ident =
     (let pkgPath = path_join [nodeModulesDir en, ident, ''package.json'']
      in case readFile (files en) pkgPath of
           Inl err \<Rightarrow> Inl err
         | Inr text \<Rightarrow>
             (case JSON_parse en text of
                None \<Rightarrow> Inl JSONSyntaxError
              | Some pkg \<Rightarrow>
                  (case entryPoint_of pkg of
                     Inl err \<Rightarrow> Inl err
                   | Inr (JStr entryPoint) \<Rightarrow> Inr (path_join [nodeModulesDir en, ident, entryPoint])
                   | Inr v \<Rightarrow> Inl TypeError)))"

definition resolveBareModule :: "env \<Rightarrow> string \<Rightarrow> server \<Rightarrow> (error + string) \<times> server" where
  \<comment> \<open>the \<open>catch\<close> logs the package and throws the same error again\<close>
  "resolveBareModule en ident srv =
     (case resolveBareModule_try en ident of
        Inl err \<Rightarrow> (Inl err, console_error (''Cannot resolve bare module: '' @ ident) srv)
      | Inr modulePath \<Rightarrow> (Inr modulePath, srv))"


section \<open>optimizeDep\<close>

text \<open>
  \<open>optimizeDep\<close> runs in two parts, before and after \<open>await build(...)\<close>; other requests
  may run between them. \<open>optimizeDep_begin\<close> is the part up to the call of \<open>build\<close>,
  \<open>optimizeDep_settle\<close> the part that runs when that call settles.
\<close>

datatype outcome =
    Returned string      \<comment> \<open>the call returned this text\<close>
  | Thrown error         \<comment> \<open>the call threw\<close>
  | Suspended nat        \<comment> \<open>the call waits for the build with this ticket\<close>
  | NoSuchBuild          \<comment> \<open>no call waits for this ticket\<close>

definition optimizeDep_begin :: "string \<Rightarrow> string \<Rightarrow> server \<Rightarrow> outcome \<times> server" where
  "optimizeDep_begin ident filepath srv =
     (case depCache srv ident of
        Some text \<Rightarrow> (Returned text, srv)
      | None \<Rightarrow>
          (Suspended (length (buildCalls srv)),
           srv\<lparr>console := console srv @ [''Optimizing dependency: '' @ ident],
               buildCalls := buildCalls srv @ [(ident, filepath)],
               awaiting := awaiting srv @ [length (buildCalls srv)]\<rparr>))"

definition optimizeDep_settle :: "nat \<Rightarrow> error + string list \<Rightarrow> server \<Rightarrow> outcome \<times> server" where
  "optimizeDep_settle ticket result srv =
     (if ticket \<in> set (awaiting srv) \<and> ticket < length (buildCalls srv) then
        (let ident = fst (buildCalls srv ! ticket);
             srv' = srv\<lparr>awaiting := removeAll ticket (awaiting srv)\<rparr>
         in case result of
              Inl err \<Rightarrow> (Thrown err, console_error (''Failed to optimize: '' @ ident) srv')
            | Inr [] \<Rightarrow> (Thrown TypeError, console_error (''Failed to optimize: '' @ ident) srv')
            | Inr (optimized # others) \<Rightarrow>
                (Returned optimized, srv'\<lparr>depCache := (depCache srv')(ident \<mapsto> optimized)\<rparr>))
      else (NoSuchBuild, srv))"

definition optimizeDep ::
  "(string \<Rightarrow> error + string list) \<Rightarrow> string \<Rightarrow> string \<Rightarrow> server \<Rightarrow> outcome \<times> server" where
  \<comment> \<open>a call that no other request interleaves with\<close>
  "optimizeDep bundler ident filepath srv =
     (case optimizeDep_begin ident filepath srv of
        (Suspended ticket, srv') \<Rightarrow> optimizeDep_settle ticket (bundler filepath) srv'
      | (out, srv') \<Rightarrow> (out, srv'))"

text \<open>
  Requests that interleave: a schedule is a list of events, each one the start of a call
  of \<open>optimizeDep\<close> or the settling of a build that was started before.
\<close>

datatype event =
    Call string string                  \<comment> \<open>\<open>optimizeDep(id, filepath)\<close> is called\<close>
  | Settle nat "error + string list"    \<comment> \<open>the build with this ticket settles\<close>

fun step :: "event \<Rightarrow> server \<Rightarrow> outcome \<times> server" where
  "step (Call ident filepath) srv = optimizeDep_begin ident filepath srv"
| "step (Settle ticket result) srv = optimizeDep_settle ticket result srv"

fun run :: "event list \<Rightarrow> server \<Rightarrow> outcome list \<times> server" where
  "run [] srv = ([], srv)"
| "run (ev # evs) srv =
     (case step ev srv of (out, srv') \<Rightarrow>
        (case run evs srv' of (outs, srv'') \<Rightarrow> (out # outs, srv'')))"

definition calls_for :: "string \<Rightarrow> server \<Rightarrow> nat" where
  \<comment> \<open>how often the bundler was called for this package\<close>
  "calls_for ident srv = length (filter (\<lambda>call. fst call = ident) (buildCalls srv))"

definition in_flight :: "string \<Rightarrow> server \<Rightarrow> bool" where
  \<comment> \<open>a build of this package is awaited\<close>
  "in_flight ident srv =
     list_ex (\<lambda>ticket. ticket < length (buildCalls srv) \<and> fst (buildCalls srv ! ticket) = ident)
       (awaiting srv)"


section \<open>The /@modules request handler\<close>

definition notFound :: "string \<Rightarrow> response" where
  \<comment> \<open>\<open>context.status = 404; context.body = `Module not found: ${id}`\<close>\<close>
  "notFound ident = \<lparr>status = Some 404, ctype = None, body = Some (''Module not found: '' @ ident)\<rparr>"

definition modulesHandler :: "env \<Rightarrow> string \<Rightarrow> server \<Rightarrow> response \<times> server" where
  \<comment> \<open>the branch \<open>url.indexOf("@modules") > -1\<close>, as one request that nothing interleaves
      with\<close>
  "modulesHandler en url srv =
     (let ident = slice_from url 10
      in case resolveBareModule en ident srv of
           (Inl err, srv') \<Rightarrow> (notFound ident, srv')
         | (Inr modulePath, srv') \<Rightarrow>
             (case optimizeDep (build en) ident modulePath srv' of
                (Returned content, srv'') \<Rightarrow>
                  (\<lparr>status = None, ctype = Some ''application/javascript'', body = Some content\<rparr>, srv'')
              | (out, srv'') \<Rightarrow> (notFound ident, srv'')))"


section \<open>The .vue request handler\<close>

text \<open>
  \<open>vueParse\<close> and \<open>compileTemplate\<close> belong to @vue/compiler-sfc. The descriptor that
  \<open>vueParse\<close> returns is a parameter: each block is \<open>null\<close> (\<open>None\<close>) or has a
  \<open>content\<close>. \<open>compileTemplate\<close> is a parameter too, a function from the template's
  source and the file path to the \<open>code\<close> of its result.
\<close>

record descriptor =
  script :: "string option"
  scriptSetup :: "string option"
  template :: "string option"

definition scriptContent :: "descriptor \<Rightarrow> string" where
  "scriptContent desc =
     (case script desc of
        Some content \<Rightarrow> content
      | None \<Rightarrow> (case scriptSetup desc of Some content \<Rightarrow> content | None \<Rightarrow> []))"

definition templateContent :: "(string \<Rightarrow> string \<Rightarrow> string) \<Rightarrow> string \<Rightarrow> descriptor \<Rightarrow> string" where
  "templateContent compileTemplate filePath desc =
     (case template desc of
        None \<Rightarrow> []
      | Some source \<Rightarrow>
          ''export function render(_ctx, _cache, $props, $setup, $data, $options) { ''
          @ compileTemplate source filePath @ '' }'')"

definition combinedCode :: "(string \<Rightarrow> string \<Rightarrow> string) \<Rightarrow> string \<Rightarrow> descriptor \<Rightarrow> string" where
  \<comment> \<open>the template literal: a line break and six spaces before each part, a line break and
      twenty-four spaces after the last\<close>
  "combinedCode compileTemplate filePath desc =
     [CHR 0x0A] @ ''      '' @ scriptContent desc
     @ [CHR 0x0A] @ ''      '' @ templateContent compileTemplate filePath desc
     @ [CHR 0x0A] @ ''                        ''"

definition vueHandler ::
  "(string \<Rightarrow> string \<Rightarrow> string) \<Rightarrow> string \<Rightarrow> descriptor \<Rightarrow> response" where
  \<comment> \<open>the branch \<open>url.endsWith(".vue")\<close>, after the file is read and parsed\<close>
  "vueHandler compileTemplate filePath desc =
     \<lparr>status = None, ctype = Some ''application/javascript'',
      body = Some (combinedCode compileTemplate filePath desc)\<rparr>"


section \<open>Reading the edits against the original text\<close>

text \<open>
  What \<open>resolveImports\<close> is compared with: the text from \<open>pos\<close> up to \<open>hi\<close>, read
  from left to right, where the span of each occurrence that is neither dynamic nor
  absolute is replaced by its \<open>normalizedPath\<close> and everything else is copied.
\<close>

fun resolved_text ::
  "string \<Rightarrow> string \<Rightarrow> nat \<Rightarrow> ImportSpecifier list \<Rightarrow> string \<Rightarrow> nat \<Rightarrow> string" where
  "resolved_text cwd dir pos [] code hi = take (hi - pos) (drop pos code)"
| "resolved_text cwd dir pos (imp # imps) code hi =
     take (s imp - pos) (drop pos code)
     @ (if -1 < d imp \<or> startsWith (substring code (s imp) (e imp)) ''/''
        then substring code (s imp) (e imp)
        else normalizedPath cwd dir (substring code (s imp) (e imp)))
     @ resolved_text cwd dir (e imp) imps code hi"

fun edits_ok :: "nat \<Rightarrow> (nat \<times> nat \<times> string) list \<Rightarrow> nat \<Rightarrow> bool" where
  \<comment> \<open>the replaced ranges are not empty and lie between \<open>lo\<close> and \<open>hi\<close> in ascending order\<close>
  "edits_ok lo [] hi = (lo \<le> hi)"
| "edits_ok lo ((a, b, c) # eds) hi = (lo \<le> a \<and> a < b \<and> edits_ok b eds hi)"

fun apply_upto :: "nat \<Rightarrow> (nat \<times> nat \<times> string) list \<Rightarrow> string \<Rightarrow> nat \<Rightarrow> string" where
  \<comment> \<open>\<open>apply_edits\<close>, stopped at \<open>hi\<close>\<close>
  "apply_upto lo [] str hi = take (hi - lo) (drop lo str)"
| "apply_upto lo ((a, b, c) # eds) str hi =
     take (a - lo) (drop lo str) @ c @ apply_upto b eds str hi"


section \<open>Manifests that cannot be read\<close>

definition pkgPath_of :: "env \<Rightarrow> string \<Rightarrow> string" where
  \<comment> \<open>\<open>path.join(nodeModulesDir, id, "package.json")\<close>\<close>
  "pkgPath_of en ident = path_join [nodeModulesDir en, ident, ''package.json'']"

definition manifest_unreadable :: "env \<Rightarrow> string \<Rightarrow> bool" where
  \<comment> \<open>the manifest of the package is missing, or \<open>JSON.parse\<close> throws on it\<close>
  "manifest_unreadable en ident =
     (case files en (pkgPath_of en ident) of
        None \<Rightarrow> True
      | Some manifest \<Rightarrow> JSON_parse en manifest = None)"


section \<open>Errors that name a package\<close>

fun names_package :: "error \<Rightarrow> string \<Rightarrow> bool" where
  \<comment> \<open>the text an error carries contains the name of the package; the syntax error of
      \<open>JSON.parse\<close> and a \<open>TypeError\<close> carry no text of the request\<close>
  "names_package (ENOENT path) ident = includes_str path ident"
| "names_package (BuildFailure msg) ident = includes_str msg ident"
| "names_package (MagicStringError msg) ident = includes_str msg ident"
| "names_package JSONSyntaxError ident = False"
| "names_package TypeError ident = False"


section \<open>Example inputs\<close>

definition emptyServer :: server where
  \<comment> \<open>the server when it starts: \<open>depCache = new Map()\<close>\<close>
  "emptyServer = \<lparr>depCache = Map.empty, console = [], buildCalls = [], awaiting = []\<rparr>"

definition exampleEnv :: "(string \<rightharpoonup> string) \<Rightarrow> env" where
  \<comment> \<open>a project in \<open>/proj\<close> with the files \<open>fs\<close>; only the manifest \<open>{}\<close> parses, only the
      package \<open>ok\<close> bundles\<close>
  "exampleEnv fs =
     \<lparr>rootDir = ''/proj'', files = fs,
      JSON_parse = (\<lambda>manifest. if manifest = ''{}'' then Some (JObj []) else None),
      build = (\<lambda>entry. if entry = ''/proj/node_modules/ok/index.js'' then Inr [''export {}'']
                        else Inl (BuildFailure ''Could not resolve''))\<rparr>"

definition exampleCompileTemplate :: "string \<Rightarrow> string \<Rightarrow> string" where
  \<comment> \<open>a template compiler for the examples\<close>
  "exampleCompileTemplate source filePath = ''return '' @ source"


section \<open>Properties of rewriteImports\<close>

lemma spans_ok_le: "spans_ok pos imps len \<Longrightarrow> pos \<le> len"
proof (induction imps arbitrary: pos)
  case Nil
  then show ?case by simp
next
  case (Cons imp imps)
  from Cons.prems have "spans_ok (e imp) imps len" and "pos \<le> e imp" by auto
  with Cons.IH [of "e imp"] show ?case by simp
qed

lemma rewriteImports_render:
  "spans_ok pos imps (length code) \<Longrightarrow>
   foldr rewriteOne imps code = take pos code @ render pos imps code"
proof (induction imps arbitrary: pos)
  case Nil
  then show ?case by simp
next
  case (Cons imp imps)
  from Cons.prems have le: "pos \<le> s imp" "s imp \<le> e imp" and ok: "spans_ok (e imp) imps (length code)"
    by auto
  from ok have elen: "e imp \<le> length code" by (rule spans_ok_le)
  have IH: "foldr rewriteOne imps code = take (e imp) code @ render (e imp) imps code"
    using Cons.IH [OF ok] .
  have pre: "take pos code @ take (s imp - pos) (drop pos code) = take (s imp) code"
    using le take_add [of pos "s imp - pos" code] by simp
  have mid: "take (s imp) code @ take (e imp - s imp) (drop (s imp) code) = take (e imp) code"
    using le take_add [of "s imp" "e imp - s imp" code] by simp
  show ?case
  proof (cases "isBare (n imp)")
    case True
    have "rewriteOne imp (take (e imp) code @ render (e imp) imps code)
          = take (s imp) code @ (''/@modules/'' @ the (n imp)) @ render (e imp) imps code"
      using True le elen by (simp add: rewriteOne_def slice_to_def slice_from_def min_def)
    then have "foldr rewriteOne (imp # imps) code
          = (take pos code @ take (s imp - pos) (drop pos code))
            @ (''/@modules/'' @ the (n imp)) @ render (e imp) imps code"
      using IH pre by simp
    with True show ?thesis by simp
  next
    case False
    have "foldr rewriteOne (imp # imps) code
          = ((take pos code @ take (s imp - pos) (drop pos code))
             @ take (e imp - s imp) (drop (s imp) code)) @ render (e imp) imps code"
      using False IH pre mid by (simp add: rewriteOne_def)
    with False show ?thesis by simp
  qed
qed

lemma spans_ok_append:
  "spans_ok pos (pre @ imp # post) len \<Longrightarrow>
   spans_ok pos pre (s imp) \<and> s imp \<le> e imp \<and> spans_ok (e imp) post len"
  by (induction pre arbitrary: pos) auto

lemma rewritten_length:
  assumes "spans_ok pos imps (length code)"
  shows "pos \<le> length (foldr rewriteOne imps code)"
proof -
  have "pos \<le> length code" using assms by (rule spans_ok_le)
  then show ?thesis using rewriteImports_render [OF assms] by simp
qed

lemma rewriteOne_append:
  "s imp \<le> e imp \<Longrightarrow> e imp \<le> length X \<Longrightarrow> rewriteOne imp (X @ Y) = rewriteOne imp X @ Y"
  by (simp add: rewriteOne_def slice_to_def slice_from_def)

lemma rewrite_append_right:
  "spans_ok pos imps (length X) \<Longrightarrow> foldr rewriteOne imps (X @ Y) = foldr rewriteOne imps X @ Y"
proof (induction imps arbitrary: pos)
  case Nil
  then show ?case by simp
next
  case (Cons imp imps)
  from Cons.prems have le: "s imp \<le> e imp" and ok: "spans_ok (e imp) imps (length X)"
    by auto
  have len: "e imp \<le> length (foldr rewriteOne imps X)"
    using ok by (rule rewritten_length)
  show ?case
    using Cons.IH [OF ok] rewriteOne_append [OF le len] by simp
qed

lemma rewriteImports_split:
  assumes ok: "spans_ok 0 (pre @ imp # post) (length code)"
    and bare: "isBare (n imp)"
  shows "rewriteImports (pre @ imp # post) code
         = rewriteImports pre (take (s imp) code) @ (''/@modules/'' @ the (n imp))
           @ drop (e imp) (rewriteImports post code)"
proof -
  from spans_ok_append [OF ok]
  have okpre: "spans_ok 0 pre (s imp)" and le: "s imp \<le> e imp"
    and okpost: "spans_ok (e imp) post (length code)" by auto
  have elen: "e imp \<le> length code" using okpost by (rule spans_ok_le)
  have post_eq: "foldr rewriteOne post code = take (e imp) code @ render (e imp) post code"
    using okpost by (rule rewriteImports_render)
  have one: "rewriteOne imp (foldr rewriteOne post code)
             = take (s imp) code @ ((''/@modules/'' @ the (n imp)) @ render (e imp) post code)"
    using bare le elen post_eq by (simp add: rewriteOne_def slice_to_def slice_from_def min_def)
  have okpre': "spans_ok 0 pre (length (take (s imp) code))"
    using okpre le elen by simp
  have "foldr rewriteOne (pre @ imp # post) code
        = foldr rewriteOne pre (rewriteOne imp (foldr rewriteOne post code))"
    by simp
  also have "\<dots> = foldr rewriteOne pre (take (s imp) code)
                   @ ((''/@modules/'' @ the (n imp)) @ render (e imp) post code)"
    unfolding one using okpre' by (rule rewrite_append_right)
  also have "render (e imp) post code = drop (e imp) (foldr rewriteOne post code)"
    using post_eq elen by simp
  finally show ?thesis by (simp add: rewriteImports_def)
qed

lemma path_join_main_js: "path_join [''/proj'', ''/src/main.js''] = ''/proj/src/main.js''"
  by code_simp

text \<open>
  Claim C2. In a served .js module, an import whose name is a bare package name (not
  empty, not beginning with \<open>/\<close> or \<open>.\<close>) is rewritten so that exactly its span
  \<open>[s, e)\<close> becomes \<open>/@modules/<name>\<close>: the body of the response is the text before the
  span, then \<open>/@modules/<name>\<close>, then the text after the span, where the text before and
  the text after are changed only by the rewriting of their own occurrences. For a
  module whose only occurrence is this import (\<open>pre = post = []\<close>) the body is
  \<open>take s code @ ''/@modules/'' @ name @ drop e code\<close>. The occurrences are assumed to
  lie in the text in ascending order without overlap, as the lexer reports them. The
  code does not read \<open>d\<close> here, so the statement holds for a static import in
  particular.
\<close>

theorem bare_import_rewritten:
  assumes "fs (path_join [root, url]) = Some code"
    and "lexer code = Some (pre @ imp # post)"
    and "spans_ok 0 (pre @ imp # post) (length code)"
    and "n imp = Some name"
    and "name \<noteq> []" and "\<not> startsWith name ''/''" and "\<not> startsWith name ''.''"
  shows "jsHandler fs lexer root url =
           \<lparr>status = None, ctype = Some ''application/javascript'',
            body = Some (rewriteImports pre (take (s imp) code)
                         @ ''/@modules/'' @ name
                         @ drop (e imp) (rewriteImports post code))\<rparr>"
proof -
  have bare: "isBare (n imp)" using assms(4-7) by (simp add: isBare_def)
  have "rewriteImports (pre @ imp # post) code
        = rewriteImports pre (take (s imp) code) @ (''/@modules/'' @ the (n imp))
          @ drop (e imp) (rewriteImports post code)"
    using assms(3) bare by (rule rewriteImports_split)
  then show ?thesis
    using assms(1,2,4) by (simp add: jsHandler_def readFile_def)
qed

text \<open>
  The example of the specification: \<open>import _ from 'lodash'\<close> is served as
  \<open>import _ from '/@modules/lodash'\<close>.
\<close>

theorem bare_import_rewritten_witness:
  "jsHandler [''/proj/src/main.js'' \<mapsto> ''import _ from 'lodash'' @ [CHR 0x27]]
     [''import _ from 'lodash'' @ [CHR 0x27] \<mapsto> [\<lparr>s = 15, e = 21, d = -1, n = Some ''lodash''\<rparr>]]
     ''/proj'' ''/src/main.js''
   = \<lparr>status = None, ctype = Some ''application/javascript'',
      body = Some (''import _ from '/@modules/lodash'' @ [CHR 0x27])\<rparr>"
  using bare_import_rewritten
    [of "[''/proj/src/main.js'' \<mapsto> ''import _ from 'lodash'' @ [CHR 0x27]]"
        "''/proj''" "''/src/main.js''" "''import _ from 'lodash'' @ [CHR 0x27]"
        "[''import _ from 'lodash'' @ [CHR 0x27] \<mapsto> [\<lparr>s = 15, e = 21, d = -1, n = Some ''lodash''\<rparr>]]"
        "[]" "\<lparr>s = 15, e = 21, d = -1, n = Some ''lodash''\<rparr>" "[]" "''lodash''"]
  by (simp add: path_join_main_js startsWith_def rewriteImports_def)

lemma path_join_app_js: "path_join [''/proj'', ''/src/app.js''] = ''/proj/src/app.js''"
  by code_simp

lemma path_join_lazy_js: "path_join [''/proj'', ''/src/lazy.js''] = ''/proj/src/lazy.js''"
  by code_simp

lemma dynamic_import_skipped:
  "-1 < d imp \<Longrightarrow>
   resolveLoop cwd currentDir code (imp # imps) magicString
   = resolveLoop cwd currentDir code imps magicString"
  by simp

text \<open>
  The first example of the specification, as the .js request handler of index.js serves
  it: the handler calls \<open>rewriteImports\<close>, whose condition
  \<open>!name.startsWith(".")\<close> leaves a relative specifier alone, so the module at
  \<open>/src/app.js\<close> goes out with \<open>./foo.js\<close> still in it, not with \<open>/src/foo.js\<close>.
\<close>

theorem relative_import_served_unchanged:
  "jsHandler [''/proj/src/app.js'' \<mapsto> ''import foo from './foo.js'' @ [CHR 0x27]]
     [''import foo from './foo.js'' @ [CHR 0x27] \<mapsto> [\<lparr>s = 17, e = 25, d = -1, n = Some ''./foo.js''\<rparr>]]
     ''/proj'' ''/src/app.js''
   = \<lparr>status = None, ctype = Some ''application/javascript'',
      body = Some (''import foo from './foo.js'' @ [CHR 0x27])\<rparr>
   \<and> ''import foo from './foo.js'' @ [CHR 0x27] \<noteq> ''import foo from '/src/foo.js'' @ [CHR 0x27]"
  by (simp add: jsHandler_def readFile_def path_join_app_js rewriteImports_def rewriteOne_def
      isBare_def startsWith_def)

text \<open>
  A dynamic import whose argument is the string literal of a bare package name: the
  lexer reports its name in \<open>n\<close> and, in \<open>d\<close>, a position above \<open>-1\<close>.
  \<open>rewriteImports\<close> never reads \<open>d\<close>, so it rewrites the span, quotes included, where
  \<open>resolveImports\<close> has \<open>if (dynamicIndex > -1) continue\<close>. This is what the code does
  against claim C4: the text at the span of a dynamic occurrence is not the input's.
\<close>

theorem dynamic_bare_import_rewritten:
  assumes "-1 < dyn"
  shows "jsHandler [''/proj/src/lazy.js'' \<mapsto> ''const mod = await import('lodash')'']
     [''const mod = await import('lodash')'' \<mapsto> [\<lparr>s = 25, e = 33, d = dyn, n = Some ''lodash''\<rparr>]]
     ''/proj'' ''/src/lazy.js''
   = \<lparr>status = None, ctype = Some ''application/javascript'',
      body = Some ''const mod = await import(/@modules/lodash)''\<rparr>"
  by (simp add: jsHandler_def readFile_def path_join_lazy_js rewriteImports_def rewriteOne_def
      isBare_def startsWith_def slice_to_def slice_from_def)

theorem dynamic_bare_import_rewritten_witness:
  "(-1::int) < 24 \<and>
   body (jsHandler [''/proj/src/lazy.js'' \<mapsto> ''const mod = await import('lodash')'']
     [''const mod = await import('lodash')'' \<mapsto> [\<lparr>s = 25, e = 33, d = 24, n = Some ''lodash''\<rparr>]]
     ''/proj'' ''/src/lazy.js'')
   = Some ''const mod = await import(/@modules/lodash)''"
  using dynamic_bare_import_rewritten [of 24] by simp

text \<open>
  A text with no static import (no occurrence with \<open>d = -1\<close>) that \<open>rewriteImports\<close>
  changes all the same: its only occurrence is a dynamic import of a bare package name.
  This is what the code does against claim C9: the output is not the input.
\<close>

theorem no_static_import_text_changed:
  assumes "-1 < dyn"
  shows "filter (\<lambda>imp. d imp = -1) [\<lparr>s = 7, e = 12, d = dyn, n = Some ''vue''\<rparr>] = []
       \<and> rewriteImports [\<lparr>s = 7, e = 12, d = dyn, n = Some ''vue''\<rparr>] ''import('vue')''
         = ''import(/@modules/vue)''
       \<and> rewriteImports [\<lparr>s = 7, e = 12, d = dyn, n = Some ''vue''\<rparr>] ''import('vue')''
         \<noteq> ''import('vue')''"
  using assms by (simp add: rewriteImports_def rewriteOne_def
      isBare_def startsWith_def slice_to_def slice_from_def)

theorem no_static_import_text_changed_witness:
  "(-1::int) < 6
   \<and> rewriteImports [\<lparr>s = 7, e = 12, d = 6, n = Some ''vue''\<rparr>] ''import('vue')''
     = ''import(/@modules/vue)''"
  using no_static_import_text_changed [of 6] by simp

text \<open>With no occurrence at all, both functions return the text they were given.\<close>

lemma no_occurrence_unchanged:
  "rewriteImports [] code = code" "resolveImports cwd [] code currentDir = Inr code"
  by (simp_all add: rewriteImports_def resolveImports_def)

lemma rewriteImports_relative:
  "list_all (\<lambda>i. case n i of None \<Rightarrow> False | Some name \<Rightarrow> startsWith name ''.'') imps \<Longrightarrow>
   rewriteImports imps code = code"
  by (induction imps) (auto simp: rewriteImports_def rewriteOne_def isBare_def split: option.splits)


section \<open>Properties of resolveImports\<close>

lemma substring_le: "a \<le> b \<Longrightarrow> substring str a b = take (b - a) (drop a str)"
  by (simp add: substring_def)

lemma take_split:
  "lo \<le> mid \<Longrightarrow> mid \<le> hi \<Longrightarrow>
   take (hi - lo) (drop lo str) = take (mid - lo) (drop lo str) @ take (hi - mid) (drop mid str)"
proof -
  assume a: "lo \<le> mid" "mid \<le> hi"
  have "take ((mid - lo) + (hi - mid)) (drop lo str)
        = take (mid - lo) (drop lo str) @ take (hi - mid) (drop (mid - lo) (drop lo str))"
    by (rule take_add)
  then show ?thesis using a by simp
qed

lemma edits_ok_le: "edits_ok lo eds hi \<Longrightarrow> lo \<le> hi"
proof (induction eds arbitrary: lo)
  case Nil
  then show ?case by simp
next
  case (Cons ed eds)
  obtain a b c where ed: "ed = (a, b, c)" by (cases ed)
  from Cons.prems ed have "lo \<le> a" "a < b" "edits_ok b eds hi" by auto
  with Cons.IH [of b] show ?case by simp
qed

lemma edits_ok_mono: "edits_ok lo eds hi \<Longrightarrow> hi \<le> hi' \<Longrightarrow> edits_ok lo eds hi'"
proof (induction eds arbitrary: lo)
  case Nil
  then show ?case by simp
next
  case (Cons ed eds)
  obtain a b c where ed: "ed = (a, b, c)" by (cases ed)
  from Cons.prems ed have "lo \<le> a" "a < b" "edits_ok b eds hi" by auto
  with Cons.IH [of b] Cons.prems(2) ed show ?case by simp
qed

lemma edits_ok_bounds:
  "edits_ok lo eds hi \<Longrightarrow> (a, b, c) \<in> set eds \<Longrightarrow> lo \<le> a \<and> a < b \<and> b \<le> hi"
proof (induction eds arbitrary: lo)
  case Nil
  then show ?case by simp
next
  case (Cons ed eds)
  obtain a' b' c' where ed: "ed = (a', b', c')" by (cases ed)
  from Cons.prems(1) ed have h: "lo \<le> a'" "a' < b'" "edits_ok b' eds hi" by auto
  from h(3) have "b' \<le> hi" by (rule edits_ok_le)
  show ?case
  proof (cases "(a, b, c) = ed")
    case True
    with ed h \<open>b' \<le> hi\<close> show ?thesis by simp
  next
    case False
    with Cons.prems(2) have "(a, b, c) \<in> set eds" by simp
    from Cons.IH [OF h(3) this] h show ?thesis by simp
  qed
qed

lemma edits_ok_snoc:
  "edits_ok lo eds pos \<Longrightarrow> pos \<le> st \<Longrightarrow> st < en \<Longrightarrow> edits_ok lo (eds @ [(st, en, c)]) en"
proof (induction eds arbitrary: lo)
  case Nil
  then show ?case by simp
next
  case (Cons ed eds)
  obtain a' b' c' where ed: "ed = (a', b', c')" by (cases ed)
  from Cons.prems(1) ed have h: "lo \<le> a'" "a' < b'" "edits_ok b' eds pos" by auto
  from Cons.IH [OF h(3) Cons.prems(2,3)] h ed show ?case by simp
qed

lemma insort_last:
  "\<forall>x \<in> set xs. fst x < fst y \<Longrightarrow> insort_key fst y xs = xs @ [y]"
  by (induction xs) auto

text \<open>
  An \<open>overwrite\<close> to the right of every range replaced so far succeeds and adds its
  range at the end.
\<close>

lemma overwrite_next:
  assumes ok: "edits_ok 0 eds pos" and le: "pos \<le> st" "st < en" "en \<le> length code"
  shows "overwrite st en c \<lparr>original = code, edits = eds\<rparr>
         = Inr \<lparr>original = code, edits = eds @ [(st, en, c)]\<rparr>"
proof -
  have bounds: "\<And>a b c'. (a, b, c') \<in> set eds \<Longrightarrow> a < b \<and> b \<le> pos"
    using edits_ok_bounds [OF ok] by blast
  have nocut: "\<not> list_ex (cuts_into st en) eds"
    using bounds le by (fastforce simp: list_ex_iff cuts_into_def)
  have keep: "filter (\<lambda>ed. \<not> inside st en ed) eds = eds"
    using bounds le by (fastforce simp: filter_id_conv inside_def)
  have "\<forall>x \<in> set eds. fst x < fst (st, en, c)"
    using bounds le by fastforce
  then have "insort_key fst (st, en, c) eds = eds @ [(st, en, c)]" by (rule insort_last)
  then show ?thesis using nocut keep le by (simp add: overwrite_def)
qed

lemma apply_edits_upto:
  "edits_ok lo eds pos \<Longrightarrow> apply_edits lo eds str = apply_upto lo eds str pos @ drop pos str"
proof (induction eds arbitrary: lo)
  case Nil
  then have "lo \<le> pos" by simp
  have "take (pos - lo) (drop lo str) @ drop (pos - lo) (drop lo str) = drop lo str"
    by (rule append_take_drop_id)
  then show ?case using \<open>lo \<le> pos\<close> by simp
next
  case (Cons ed eds)
  obtain a b c where ed: "ed = (a, b, c)" by (cases ed)
  from Cons.prems ed have "edits_ok b eds pos" by simp
  from Cons.IH [OF this] ed show ?case by simp
qed

lemma apply_upto_extend:
  "edits_ok lo eds pos \<Longrightarrow> pos \<le> hi \<Longrightarrow>
   apply_upto lo eds str hi = apply_upto lo eds str pos @ take (hi - pos) (drop pos str)"
proof (induction eds arbitrary: lo)
  case Nil
  then show ?case using take_split [of lo pos hi str] by simp
next
  case (Cons ed eds)
  obtain a b c where ed: "ed = (a, b, c)" by (cases ed)
  from Cons.prems ed have "edits_ok b eds pos" by simp
  from Cons.IH [OF this Cons.prems(2)] ed show ?case by simp
qed

lemma apply_upto_snoc:
  "edits_ok lo eds pos \<Longrightarrow> pos \<le> st \<Longrightarrow>
   apply_upto lo (eds @ [(st, en, c)]) str en
   = apply_upto lo eds str pos @ take (st - pos) (drop pos str) @ c"
proof (induction eds arbitrary: lo)
  case Nil
  then show ?case using take_split [of lo pos st str] by simp
next
  case (Cons ed eds)
  obtain a b c' where ed: "ed = (a, b, c')" by (cases ed)
  from Cons.prems ed have "edits_ok b eds pos" by simp
  from Cons.IH [OF this Cons.prems(2)] ed show ?case by simp
qed

text \<open>
  The loop, started on the replacements \<open>eds\<close> made up to \<open>pos\<close>, does not throw, and the
  text it leaves is the text replaced so far followed by the rest read from left to
  right.
\<close>

lemma resolveLoop_text:
  assumes "edits_ok 0 eds pos" and "spans_ok pos imps (length code)"
    and "list_all (\<lambda>i. s i < e i) imps"
  shows "\<exists>ms'. resolveLoop cwd dir code imps \<lparr>original = code, edits = eds\<rparr> = Inr ms'
           \<and> toString ms'
             = apply_upto 0 eds code pos @ resolved_text cwd dir pos imps code (length code)"
  using assms
proof (induction imps arbitrary: eds pos)
  case Nil
  then show ?case
    using apply_edits_upto [of 0 eds pos code] by (simp add: toString_def)
next
  case (Cons imp imps)
  from Cons.prems have le: "pos \<le> s imp" "s imp < e imp"
    and ok: "spans_ok (e imp) imps (length code)"
    and ne: "list_all (\<lambda>i. s i < e i) imps" by auto
  from ok have elen: "e imp \<le> length code" by (rule spans_ok_le)
  let ?sub = "substring code (s imp) (e imp)"
  have sub: "?sub = take (e imp - s imp) (drop (s imp) code)"
    using le by (simp add: substring_le)
  show ?case
  proof (cases "-1 < d imp \<or> startsWith ?sub ''/''")
    case True
    have eok: "edits_ok 0 eds (e imp)"
      using Cons.prems(1) le by (auto intro: edits_ok_mono)
    from Cons.IH [OF eok ok ne] obtain ms' where
      r: "resolveLoop cwd dir code imps \<lparr>original = code, edits = eds\<rparr> = Inr ms'"
      and t: "toString ms' = apply_upto 0 eds code (e imp)
                @ resolved_text cwd dir (e imp) imps code (length code)" by blast
    have "apply_upto 0 eds code (e imp)
          = apply_upto 0 eds code pos @ take (e imp - pos) (drop pos code)"
      using Cons.prems(1) le by (intro apply_upto_extend) auto
    also have "take (e imp - pos) (drop pos code)
               = take (s imp - pos) (drop pos code) @ ?sub"
      using take_split [of pos "s imp" "e imp" code] le sub by simp
    finally have "toString ms' = apply_upto 0 eds code pos
                    @ resolved_text cwd dir pos (imp # imps) code (length code)"
      using t True by simp
    moreover have "resolveLoop cwd dir code (imp # imps) \<lparr>original = code, edits = eds\<rparr> = Inr ms'"
      using True r by auto
    ultimately show ?thesis by blast
  next
    case False
    let ?np = "normalizedPath cwd dir ?sub"
    have ow: "overwrite (s imp) (e imp) ?np \<lparr>original = code, edits = eds\<rparr>
              = Inr \<lparr>original = code, edits = eds @ [(s imp, e imp, ?np)]\<rparr>"
      using Cons.prems(1) le elen by (rule overwrite_next)
    have eok: "edits_ok 0 (eds @ [(s imp, e imp, ?np)]) (e imp)"
      using Cons.prems(1) le by (rule edits_ok_snoc)
    from Cons.IH [OF eok ok ne] obtain ms' where
      r: "resolveLoop cwd dir code imps \<lparr>original = code, edits = eds @ [(s imp, e imp, ?np)]\<rparr> = Inr ms'"
      and t: "toString ms' = apply_upto 0 (eds @ [(s imp, e imp, ?np)]) code (e imp)
                @ resolved_text cwd dir (e imp) imps code (length code)" by blast
    have "apply_upto 0 (eds @ [(s imp, e imp, ?np)]) code (e imp)
          = apply_upto 0 eds code pos @ take (s imp - pos) (drop pos code) @ ?np"
      using Cons.prems(1) le(1) by (rule apply_upto_snoc)
    then have "toString ms' = apply_upto 0 eds code pos
                    @ resolved_text cwd dir pos (imp # imps) code (length code)"
      using t False by simp
    moreover have "resolveLoop cwd dir code (imp # imps) \<lparr>original = code, edits = eds\<rparr> = Inr ms'"
      using False r ow by (simp add: Let_def)
    ultimately show ?thesis by blast
  qed
qed

lemma resolveImports_text:
  assumes "spans_ok 0 imps (length code)" and "list_all (\<lambda>i. s i < e i) imps"
  shows "resolveImports cwd imps code dir = Inr (resolved_text cwd dir 0 imps code (length code))"
proof (cases "imps = []")
  case True
  then show ?thesis by (simp add: resolveImports_def)
next
  case False
  have "edits_ok 0 [] 0" by simp
  from resolveLoop_text [OF this assms, of cwd dir] obtain ms' where
    "resolveLoop cwd dir code imps \<lparr>original = code, edits = []\<rparr> = Inr ms'"
    "toString ms' = resolved_text cwd dir 0 imps code (length code)" by auto
  with False show ?thesis by (simp add: resolveImports_def newMagicString_def)
qed

lemma resolved_text_split:
  "resolved_text cwd dir pos (pre @ imp # post) code hi
   = resolved_text cwd dir pos pre code (s imp)
     @ (if -1 < d imp \<or> startsWith (substring code (s imp) (e imp)) ''/''
        then substring code (s imp) (e imp)
        else normalizedPath cwd dir (substring code (s imp) (e imp)))
     @ resolved_text cwd dir (e imp) post code hi"
  by (induction pre arbitrary: pos) simp_all

text \<open>
  Claim C1, as amended. \<open>resolveImports\<close>, called with the directory of the importing
  module, overwrites the span of a static import specifier that begins with \<open>.\<close> with
  \<open>normalizedPath\<close>: \<open>/\<close>, then the path of the specifier resolved against that directory,
  taken relative to the working directory of the process, backslashes turned into
  \<open>/\<close>. The result is the text before the span, the new URL, and the text after the
  span, the other occurrences of both parts being treated alike (\<open>resolved_text\<close>). The
  occurrences are assumed to lie in the text in ascending order without overlap, each
  span not empty, as the lexer reports them.
  The .js request handler of index.js does not call \<open>resolveImports\<close>: it calls
  \<open>rewriteImports\<close>, and a module all of whose specifiers begin with \<open>.\<close> is served as
  it is.
\<close>

theorem relative_import_resolved:
  assumes "spans_ok 0 (pre @ imp # post) (length code)"
    and "list_all (\<lambda>i. s i < e i) (pre @ imp # post)"
    and "d imp = -1"
    and "startsWith (substring code (s imp) (e imp)) ''.''"
  shows "resolveImports cwd (pre @ imp # post) code currentDir
         = Inr (resolved_text cwd currentDir 0 pre code (s imp)
                @ normalizedPath cwd currentDir (substring code (s imp) (e imp))
                @ resolved_text cwd currentDir (e imp) post code (length code))
       \<and> (fs (path_join [root, url]) = Some code \<and> lexer code = Some imps
          \<and> list_all (\<lambda>i. case n i of None \<Rightarrow> False | Some name \<Rightarrow> startsWith name ''.'') imps
          \<longrightarrow> jsHandler fs lexer root url
              = \<lparr>status = None, ctype = Some ''application/javascript'', body = Some code\<rparr>)"
proof -
  have "\<not> startsWith (substring code (s imp) (e imp)) ''/''"
    using assms(4) by (auto simp: startsWith_def)
  then have "resolveImports cwd (pre @ imp # post) code currentDir
         = Inr (resolved_text cwd currentDir 0 pre code (s imp)
                @ normalizedPath cwd currentDir (substring code (s imp) (e imp))
                @ resolved_text cwd currentDir (e imp) post code (length code))"
    using resolveImports_text [OF assms(1,2), of cwd currentDir] assms(3)
    by (simp add: resolved_text_split)
  then show ?thesis
    by (auto simp: jsHandler_def readFile_def rewriteImports_relative)
qed

text \<open>
  The first example of the specification, with the process working in \<open>/proj\<close> and
  the module at \<open>/src/app.js\<close> below it: \<open>resolveImports\<close> turns \<open>./foo.js\<close> into
  \<open>/src/foo.js\<close>, and the handler serves the module unchanged.
\<close>

lemma dirname_app_js: "path_dirname ''/proj/src/app.js'' = ''/proj/src''"
  by code_simp

lemma normalizedPath_foo:
  "normalizedPath ''/proj'' ''/proj/src'' ''./foo.js'' = ''/src/foo.js''"
  by code_simp

theorem relative_import_resolved_witness:
  "resolveImports ''/proj'' [\<lparr>s = 17, e = 25, d = -1, n = Some ''./foo.js''\<rparr>]
     (''import foo from './foo.js'' @ [CHR 0x27])
     (path_dirname (path_join [''/proj'', ''/src/app.js'']))
   = Inr (''import foo from '/src/foo.js'' @ [CHR 0x27])
   \<and> body (jsHandler [''/proj/src/app.js'' \<mapsto> ''import foo from './foo.js'' @ [CHR 0x27]]
        [''import foo from './foo.js'' @ [CHR 0x27]
           \<mapsto> [\<lparr>s = 17, e = 25, d = -1, n = Some ''./foo.js''\<rparr>]]
        ''/proj'' ''/src/app.js'')
     = Some (''import foo from './foo.js'' @ [CHR 0x27])"
  using relative_import_resolved
    [where pre = "[]" and imp = "\<lparr>s = 17, e = 25, d = -1, n = Some ''./foo.js''\<rparr>"
       and post = "[]" and code = "''import foo from './foo.js'' @ [CHR 0x27]"
       and cwd = "''/proj''" and currentDir = "''/proj/src''"
       and fs = "[''/proj/src/app.js'' \<mapsto> ''import foo from './foo.js'' @ [CHR 0x27]]"
       and root = "''/proj''" and url = "''/src/app.js''"
       and lexer = "[''import foo from './foo.js'' @ [CHR 0x27]
                       \<mapsto> [\<lparr>s = 17, e = 25, d = -1, n = Some ''./foo.js''\<rparr>]]"
       and imps = "[\<lparr>s = 17, e = 25, d = -1, n = Some ''./foo.js''\<rparr>]"]
  by (simp add: dirname_app_js path_join_app_js substring_def startsWith_def normalizedPath_foo)

section \<open>Properties of the .vue request handler\<close>

text \<open>
  A component with both blocks: the module served holds the content of the script block,
  \<open>export default {}\<close>, and nothing of the script-setup block.
\<close>

theorem script_emitted_not_script_setup:
  "vueHandler exampleCompileTemplate ''/proj/src/App.vue''
     \<lparr>script = Some ''export default {}'', scriptSetup = Some ''const msg = 1'', template = None\<rparr>
   = \<lparr>status = None, ctype = Some ''application/javascript'',
      body = Some ([CHR 0x0A] @ ''      export default {}'' @ [CHR 0x0A] @ ''      ''
                   @ [CHR 0x0A] @ ''                        '')\<rparr>"
  by (simp add: vueHandler_def combinedCode_def scriptContent_def templateContent_def)

text \<open>
  Claim C3, as amended. When the descriptor has both a script block and a script-setup
  block, the synthesized module holds only the content of the script block: \<open>script\<close>
  takes precedence over \<open>scriptSetup\<close>, and the module is the one that the same
  descriptor without its script-setup block gives.
\<close>

theorem script_takes_precedence:
  assumes "script desc = Some a" and "scriptSetup desc = Some b"
  shows "combinedCode compileTemplate filePath desc
         = [CHR 0x0A] @ ''      '' @ a
           @ [CHR 0x0A] @ ''      '' @ templateContent compileTemplate filePath desc
           @ [CHR 0x0A] @ ''                        ''
       \<and> combinedCode compileTemplate filePath desc
         = combinedCode compileTemplate filePath (desc\<lparr>scriptSetup := None\<rparr>)"
  using assms by (simp add: combinedCode_def scriptContent_def templateContent_def)

theorem script_takes_precedence_witness:
  "combinedCode exampleCompileTemplate ''/proj/src/App.vue''
     \<lparr>script = Some ''a()'', scriptSetup = Some ''b()'', template = Some ''<p/>''\<rparr>
   = [CHR 0x0A] @ ''      a()'' @ [CHR 0x0A]
     @ ''      export function render(_ctx, _cache, $props, $setup, $data, $options) { return <p/> }''
     @ [CHR 0x0A] @ ''                        ''"
  using script_takes_precedence
    [of "\<lparr>script = Some ''a()'', scriptSetup = Some ''b()'', template = Some ''<p/>''\<rparr>"
        "''a()''" "''b()''" exampleCompileTemplate "''/proj/src/App.vue''"]
  by (simp add: templateContent_def exampleCompileTemplate_def)


section \<open>Properties of the pre-bundle cache\<close>

lemma in_flight_iff:
  "in_flight ident srv \<longleftrightarrow>
   (\<exists>ticket \<in> set (awaiting srv). ticket < length (buildCalls srv) \<and> fst (buildCalls srv ! ticket) = ident)"
  by (simp add: in_flight_def list_ex_iff)

text \<open>No step removes an entry of the cache.\<close>

lemma step_keeps_entry:
  assumes "depCache srv ident \<noteq> None"
  shows "depCache (snd (step ev srv)) ident \<noteq> None"
proof (cases ev)
  case (Call other filepath)
  with assms show ?thesis
    by (simp add: optimizeDep_begin_def split: option.splits)
next
  case (Settle ticket result)
  with assms show ?thesis
    by (auto simp: optimizeDep_settle_def console_error_def Let_def split: sum.splits list.splits)
qed

lemma run_keeps_entry:
  "depCache srv ident \<noteq> None \<Longrightarrow> depCache (snd (run evs srv)) ident \<noteq> None"
proof (induction evs arbitrary: srv)
  case Nil
  then show ?case by simp
next
  case (Cons ev evs)
  from step_keeps_entry [OF Cons.prems, of ev]
  have "depCache (snd (run evs (snd (step ev srv)))) ident \<noteq> None" by (rule Cons.IH)
  then show ?case by (simp add: split_beta)
qed

text \<open>
  While the cache holds a text for a package and no build of that package is awaited,
  a step keeps both, calls the bundler for no such build, and answers a call for the
  package with that text.
\<close>

lemma step_keeps_hit:
  assumes hit: "depCache srv ident = Some cached" and nf: "\<not> in_flight ident srv"
    and st: "step ev srv = (out, srv')"
  shows "depCache srv' ident = Some cached \<and> \<not> in_flight ident srv'
         \<and> calls_for ident srv' = calls_for ident srv
         \<and> (\<forall>filepath. ev = Call ident filepath \<longrightarrow> out = Returned cached)"
proof (cases ev)
  case (Call other filepath)
  show ?thesis
  proof (cases "depCache srv other")
    case None
    then have ne: "other \<noteq> ident" using hit by auto
    from None Call st have srv': "srv' = srv\<lparr>console := console srv @ [''Optimizing dependency: '' @ other],
               buildCalls := buildCalls srv @ [(other, filepath)],
               awaiting := awaiting srv @ [length (buildCalls srv)]\<rparr>"
      by (simp add: optimizeDep_begin_def)
    have "\<not> in_flight ident srv'"
      using nf ne unfolding in_flight_iff srv' by (auto simp: nth_append)
    then show ?thesis using hit ne Call srv' by (simp add: calls_for_def)
  next
    case (Some t)
    with Call st have "srv' = srv" "out = Returned t" by (simp_all add: optimizeDep_begin_def)
    then show ?thesis using hit nf Some Call by auto
  qed
next
  case (Settle ticket result)
  show ?thesis
  proof (cases "ticket \<in> set (awaiting srv) \<and> ticket < length (buildCalls srv)")
    case False
    with Settle st have "srv' = srv" by (simp add: optimizeDep_settle_def)
    then show ?thesis using hit nf Settle by simp
  next
    case True
    then have ne: "fst (buildCalls srv ! ticket) \<noteq> ident"
      using nf unfolding in_flight_iff by auto
    have aw: "awaiting srv' = removeAll ticket (awaiting srv)" and bc: "buildCalls srv' = buildCalls srv"
      and dc: "depCache srv' ident = depCache srv ident"
      using True Settle st ne
      by (auto simp: optimizeDep_settle_def console_error_def Let_def split: sum.splits list.splits)
    have "\<not> in_flight ident srv'"
      using nf unfolding in_flight_iff aw bc by auto
    then show ?thesis using hit dc bc Settle by (simp add: calls_for_def)
  qed
qed

lemma run_keeps_hit:
  assumes "depCache srv ident = Some cached" and "\<not> in_flight ident srv"
  shows "depCache (snd (run evs srv)) ident = Some cached
       \<and> \<not> in_flight ident (snd (run evs srv))
       \<and> calls_for ident (snd (run evs srv)) = calls_for ident srv
       \<and> list_all2 (\<lambda>ev out. \<forall>filepath. ev = Call ident filepath \<longrightarrow> out = Returned cached)
            evs (fst (run evs srv))"
  using assms
proof (induction evs arbitrary: srv)
  case Nil
  then show ?case by simp
next
  case (Cons ev evs)
  obtain out srv' where st: "step ev srv = (out, srv')" by (cases "step ev srv")
  from step_keeps_hit [OF Cons.prems st]
  have h: "depCache srv' ident = Some cached" "\<not> in_flight ident srv'"
    and c: "calls_for ident srv' = calls_for ident srv"
    and o: "\<forall>filepath. ev = Call ident filepath \<longrightarrow> out = Returned cached" by auto
  from Cons.IH [OF h] show ?case
    using st c o by (simp add: split_beta)
qed

text \<open>
  While the cache holds a text for a package, no step calls the bundler for it, and a
  call for the package returns the text held at that moment.
\<close>

lemma step_keeps_calls:
  assumes "depCache srv ident \<noteq> None"
  shows "calls_for ident (snd (step ev srv)) = calls_for ident srv"
proof (cases ev)
  case (Call other filepath)
  show ?thesis
  proof (cases "depCache srv other")
    case None
    then have "other \<noteq> ident" using assms by auto
    with None Call show ?thesis by (simp add: optimizeDep_begin_def calls_for_def)
  next
    case (Some t)
    with Call show ?thesis by (simp add: optimizeDep_begin_def)
  qed
next
  case (Settle ticket result)
  then show ?thesis
    by (auto simp: optimizeDep_settle_def console_error_def calls_for_def Let_def
        split: sum.splits list.splits)
qed

lemma run_keeps_calls:
  "depCache srv ident \<noteq> None \<Longrightarrow> calls_for ident (snd (run evs srv)) = calls_for ident srv"
proof (induction evs arbitrary: srv)
  case Nil
  then show ?case by simp
next
  case (Cons ev evs)
  have "depCache (snd (step ev srv)) ident \<noteq> None"
    using Cons.prems by (rule step_keeps_entry)
  then have "calls_for ident (snd (run evs (snd (step ev srv)))) = calls_for ident (snd (step ev srv))"
    by (rule Cons.IH)
  then show ?case using step_keeps_calls [OF Cons.prems, of ev] by (simp add: split_beta)
qed

lemma run_call_returns_stored:
  "depCache srv ident \<noteq> None \<Longrightarrow> i < length evs \<Longrightarrow> evs ! i = Call ident filepath \<Longrightarrow>
   fst (run evs srv) ! i = Returned (the (depCache (snd (run (take i evs) srv)) ident))"
proof (induction evs arbitrary: srv i)
  case Nil
  then show ?case by simp
next
  case (Cons ev evs)
  show ?case
  proof (cases i)
    case 0
    with Cons.prems have "ev = Call ident filepath" by simp
    with Cons.prems(1) 0 show ?thesis
      by (auto simp: optimizeDep_begin_def split_beta)
  next
    case (Suc j)
    have keep: "depCache (snd (step ev srv)) ident \<noteq> None"
      using Cons.prems(1) by (rule step_keeps_entry)
    from Cons.prems Suc have "j < length evs" "evs ! j = Call ident filepath" by simp_all
    from Cons.IH [OF keep this] Suc show ?thesis by (simp add: split_beta)
  qed
qed

text \<open>
  Two requests for \<open>react\<close> miss the cache before either build settles. The first build
  settles with \<open>v1\<close>, and a call after it returns \<open>v1\<close>; then the second build settles
  with \<open>v2\<close> and overwrites the entry, and the next call returns \<open>v2\<close>, not the first
  result.
\<close>

theorem cache_refreshed_by_overlapping_build:
  "fst (run [Call ''react'' ''/proj/node_modules/react/index.js'',
             Call ''react'' ''/proj/node_modules/react/index.js'',
             Settle 0 (Inr [''v1'']),
             Call ''react'' ''/proj/node_modules/react/index.js'',
             Settle 1 (Inr [''v2'']),
             Call ''react'' ''/proj/node_modules/react/index.js''] emptyServer)
   = [Suspended 0, Suspended 1, Returned ''v1'', Returned ''v1'', Returned ''v2'', Returned ''v2'']"
  by (simp add: emptyServer_def optimizeDep_begin_def optimizeDep_settle_def)

text \<open>
  Claim C5, as amended. For a fixed package name, once the cache holds a text for it
  (after the first successful build), through every schedule of later calls and
  builds: the entry is never removed; the bundler is not called for the package again;
  and every call for the package returns the text stored at that moment. If moreover
  no other build of the package is in flight at that moment, the entry stays the first
  result, byte for byte, and every call returns it. A build of the same package that
  was already in flight overwrites the entry when it settles.
\<close>

theorem cache_hit_stable:
  assumes "depCache srv ident = Some cached"
  shows "depCache (snd (run evs srv)) ident \<noteq> None
       \<and> calls_for ident (snd (run evs srv)) = calls_for ident srv
       \<and> (\<forall>i < length evs. \<forall>filepath. evs ! i = Call ident filepath \<longrightarrow>
            fst (run evs srv) ! i
            = Returned (the (depCache (snd (run (take i evs) srv)) ident)))
       \<and> (\<not> in_flight ident srv \<longrightarrow>
            depCache (snd (run evs srv)) ident = Some cached
          \<and> list_all2 (\<lambda>ev out. \<forall>filepath. ev = Call ident filepath \<longrightarrow> out = Returned cached)
               evs (fst (run evs srv)))"
proof -
  have ne: "depCache srv ident \<noteq> None" using assms by simp
  show ?thesis
    using run_keeps_entry [OF ne, of evs] run_keeps_calls [OF ne, of evs]
      run_call_returns_stored [OF ne, of _ evs] run_keeps_hit [OF assms, of evs]
    by blast
qed

theorem cache_hit_stable_witness:
  "depCache (snd (run [Call ''react'' ''/r.js'', Call ''react'' ''/r.js'', Settle 0 (Inr [''v1''])]
                   emptyServer)) ''react'' = Some ''v1''
   \<and> fst (run [Call ''react'' ''/r2.js'', Settle 1 (Inr [''v2'']), Call ''react'' ''/r3.js'']
        (snd (run [Call ''react'' ''/r.js'', Call ''react'' ''/r.js'', Settle 0 (Inr [''v1''])]
                emptyServer)))
     = [Returned ''v1'', Returned ''v2'', Returned ''v2'']
   \<and> calls_for ''react''
        (snd (run [Call ''react'' ''/r2.js'', Settle 1 (Inr [''v2'']), Call ''react'' ''/r3.js'']
          (snd (run [Call ''react'' ''/r.js'', Call ''react'' ''/r.js'', Settle 0 (Inr [''v1''])]
                  emptyServer)))) = 2
   \<and> depCache (snd (run [Call ''react'' ''/r.js'', Settle 0 (Inr [''v1''])] emptyServer)) ''react'' = Some ''v1''
   \<and> \<not> in_flight ''react'' (snd (run [Call ''react'' ''/r.js'', Settle 0 (Inr [''v1''])] emptyServer))
   \<and> fst (run [Call ''react'' ''/r.js'', Call ''vue'' ''/v.js'', Settle 1 (Inr [''w'']), Call ''react'' ''/r2.js'']
        (snd (run [Call ''react'' ''/r.js'', Settle 0 (Inr [''v1''])] emptyServer)))
     = [Returned ''v1'', Suspended 1, Returned ''w'', Returned ''v1'']"
  using cache_hit_stable
    [of "snd (run [Call ''react'' ''/r.js'', Call ''react'' ''/r.js'', Settle 0 (Inr [''v1''])] emptyServer)"
        "''react''" "''v1''"
        "[Call ''react'' ''/r2.js'', Settle 1 (Inr [''v2'']), Call ''react'' ''/r3.js'']"]
    cache_hit_stable
    [of "snd (run [Call ''react'' ''/r.js'', Settle 0 (Inr [''v1''])] emptyServer)" "''react''" "''v1''"
        "[Call ''react'' ''/r.js'', Call ''vue'' ''/v.js'', Settle 1 (Inr [''w'']), Call ''react'' ''/r2.js'']"]
  by (simp add: emptyServer_def optimizeDep_begin_def optimizeDep_settle_def in_flight_def calls_for_def)

text \<open>
  Two first requests for \<open>react\<close> that both arrive before a build settles: each of them
  calls the bundler, which is called twice, not once.
\<close>

theorem concurrent_misses_build_twice:
  "fst (run [Call ''react'' ''/proj/node_modules/react/index.js'',
             Call ''react'' ''/proj/node_modules/react/index.js'',
             Settle 0 (Inr [''v1'']),
             Settle 1 (Inr [''v1''])] emptyServer)
   = [Suspended 0, Suspended 1, Returned ''v1'', Returned ''v1'']
   \<and> calls_for ''react''
       (snd (run [Call ''react'' ''/proj/node_modules/react/index.js'',
                  Call ''react'' ''/proj/node_modules/react/index.js'',
                  Settle 0 (Inr [''v1'']),
                  Settle 1 (Inr [''v1''])] emptyServer)) = 2"
  by (simp add: emptyServer_def optimizeDep_begin_def optimizeDep_settle_def calls_for_def)

text \<open>
  Claim C6, as amended. If two first requests for the same uncached package name arrive
  before the first build completes, the bundler is called once for each of them, twice
  in all: the cache has no marker of a build in progress and does not coalesce the two
  misses. Each request returns the text of its own build, and the cache keeps the text
  of the build that settles last, in whichever order the two builds settle.
\<close>

theorem concurrent_misses_not_coalesced:
  assumes "depCache srv ident = None" and "k = length (buildCalls srv)"
  shows "fst (run [Call ident fp1, Call ident fp2,
                   Settle k (Inr (t1 # r1)), Settle (Suc k) (Inr (t2 # r2))] srv)
         = [Suspended k, Suspended (Suc k), Returned t1, Returned t2]
       \<and> calls_for ident (snd (run [Call ident fp1, Call ident fp2,
                   Settle k (Inr (t1 # r1)), Settle (Suc k) (Inr (t2 # r2))] srv))
         = calls_for ident srv + 2
       \<and> depCache (snd (run [Call ident fp1, Call ident fp2,
                   Settle k (Inr (t1 # r1)), Settle (Suc k) (Inr (t2 # r2))] srv)) ident
         = Some t2
       \<and> fst (run [Call ident fp1, Call ident fp2,
                   Settle (Suc k) (Inr (t2 # r2)), Settle k (Inr (t1 # r1))] srv)
         = [Suspended k, Suspended (Suc k), Returned t2, Returned t1]
       \<and> calls_for ident (snd (run [Call ident fp1, Call ident fp2,
                   Settle (Suc k) (Inr (t2 # r2)), Settle k (Inr (t1 # r1))] srv))
         = calls_for ident srv + 2
       \<and> depCache (snd (run [Call ident fp1, Call ident fp2,
                   Settle (Suc k) (Inr (t2 # r2)), Settle k (Inr (t1 # r1))] srv)) ident
         = Some t1"
  using assms
  by (simp add: optimizeDep_begin_def optimizeDep_settle_def calls_for_def nth_append)

theorem concurrent_misses_not_coalesced_witness:
  "fst (run [Call ''vue'' ''/a.js'', Call ''vue'' ''/a.js'',
             Settle 0 (Inr [''one'']), Settle 1 (Inr [''two''])] emptyServer)
   = [Suspended 0, Suspended 1, Returned ''one'', Returned ''two'']
   \<and> calls_for ''vue'' (snd (run [Call ''vue'' ''/a.js'', Call ''vue'' ''/a.js'',
             Settle 0 (Inr [''one'']), Settle 1 (Inr [''two''])] emptyServer)) = 2
   \<and> depCache (snd (run [Call ''vue'' ''/a.js'', Call ''vue'' ''/a.js'',
             Settle 0 (Inr [''one'']), Settle 1 (Inr [''two''])] emptyServer)) ''vue'' = Some ''two''"
  using concurrent_misses_not_coalesced
    [of emptyServer "''vue''" 0 "''/a.js''" "''/a.js''" "''one''" "[]" "''two''" "[]"]
  by (simp add: emptyServer_def calls_for_def)

lemma optimizeDep_miss:
  assumes "depCache srv ident = None"
  shows "optimizeDep bundler ident filepath srv
         = optimizeDep_settle (length (buildCalls srv)) (bundler filepath)
             (srv\<lparr>console := console srv @ [''Optimizing dependency: '' @ ident],
                  buildCalls := buildCalls srv @ [(ident, filepath)],
                  awaiting := awaiting srv @ [length (buildCalls srv)]\<rparr>)"
  using assms by (simp add: optimizeDep_def optimizeDep_begin_def)

lemma optimizeDep_hit:
  assumes "depCache srv ident = Some cached"
  shows "optimizeDep bundler ident filepath srv = (Returned cached, srv)"
  using assms by (simp add: optimizeDep_def optimizeDep_begin_def)

lemma optimizeDep_miss_failure:
  assumes "depCache srv ident = None" and "bundler filepath = Inl err"
  shows "fst (optimizeDep bundler ident filepath srv) = Thrown err"
    and "depCache (snd (optimizeDep bundler ident filepath srv)) = depCache srv"
    and "console (snd (optimizeDep bundler ident filepath srv))
         = console srv @ [''Optimizing dependency: '' @ ident, ''Failed to optimize: '' @ ident]"
    and "calls_for ident (snd (optimizeDep bundler ident filepath srv)) = calls_for ident srv + 1"
  using assms
  by (simp_all add: optimizeDep_miss optimizeDep_settle_def console_error_def calls_for_def)

lemma optimizeDep_miss_calls:
  assumes "depCache srv ident = None"
  shows "calls_for ident (snd (optimizeDep bundler ident filepath srv)) = calls_for ident srv + 1"
  using assms
  by (simp add: optimizeDep_miss optimizeDep_settle_def console_error_def calls_for_def Let_def
      split: sum.splits list.splits)

lemma settle_failure_keeps_cache:
  "depCache (snd (optimizeDep_settle ticket (Inl err) srv)) = depCache srv"
  by (simp add: optimizeDep_settle_def console_error_def)


section \<open>Properties of the /@modules request handler\<close>

lemma slice_modules: "slice_from (''/@modules/'' @ ident) 10 = ident"
  by (simp add: slice_from_def)

lemma route_modules: "route_of (''/@modules/'' @ ident) = ModulesRoute"
  by (simp add: route_of_def startsWith_def)

lemma modulesHandler_url:
  "modulesHandler en (''/@modules/'' @ ident) srv =
     (case resolveBareModule en ident srv of
        (Inl err, srv') \<Rightarrow> (notFound ident, srv')
      | (Inr modulePath, srv') \<Rightarrow>
          (case optimizeDep (build en) ident modulePath srv' of
             (Returned content, srv'') \<Rightarrow>
               (\<lparr>status = None, ctype = Some ''application/javascript'', body = Some content\<rparr>, srv'')
           | (out, srv'') \<Rightarrow> (notFound ident, srv'')))"
  by (simp only: modulesHandler_def slice_modules Let_def)

lemma modulesHandler_unresolved:
  assumes "resolveBareModule_try en ident = Inl err"
  shows "modulesHandler en (''/@modules/'' @ ident) srv
         = (notFound ident, console_error (''Cannot resolve bare module: '' @ ident) srv)"
  unfolding modulesHandler_url resolveBareModule_def using assms by simp

lemma modulesHandler_resolved:
  assumes "resolveBareModule_try en ident = Inr modulePath"
  shows "modulesHandler en (''/@modules/'' @ ident) srv
         = (case optimizeDep (build en) ident modulePath srv of
              (Returned content, srv'') \<Rightarrow>
                (\<lparr>status = None, ctype = Some ''application/javascript'', body = Some content\<rparr>, srv'')
            | (out, srv'') \<Rightarrow> (notFound ident, srv''))"
  unfolding modulesHandler_url resolveBareModule_def using assms by simp

lemma unreadable_try:
  assumes "manifest_unreadable en ident"
  shows "resolveBareModule_try en ident
         = Inl (if files en (pkgPath_of en ident) = None then ENOENT (pkgPath_of en ident)
                else JSONSyntaxError)"
  using assms
  by (auto simp: manifest_unreadable_def resolveBareModule_try_def pkgPath_of_def readFile_def
      split: option.splits)

lemma example_files: "files (exampleEnv fs) = fs"
  by (simp add: exampleEnv_def)

lemma example_bad_resolves:
  "resolveBareModule_try (exampleEnv [''/proj/node_modules/bad/package.json'' \<mapsto> ''{}'']) ''bad''
   = Inr ''/proj/node_modules/bad/index.js''"
  by code_simp

lemma example_bad_build:
  "build (exampleEnv fs) ''/proj/node_modules/bad/index.js'' = Inl (BuildFailure ''Could not resolve'')"
  by (simp add: exampleEnv_def)

lemma example_missing: "manifest_unreadable (exampleEnv Map.empty) ident"
  by (simp add: manifest_unreadable_def exampleEnv_def)

lemma example_pkgPath:
  "pkgPath_of (exampleEnv fs) ''does-not-exist'' = ''/proj/node_modules/does-not-exist/package.json''"
proof -
  have "path_join [path_join [''/proj'', ''node_modules''], ''does-not-exist'', ''package.json'']
        = ''/proj/node_modules/does-not-exist/package.json''"
    by code_simp
  then show ?thesis by (simp add: pkgPath_of_def nodeModulesDir_def exampleEnv_def)
qed

lemma example_pkgPath_bad:
  "pkgPath_of (exampleEnv fs) ''bad'' = ''/proj/node_modules/bad/package.json''"
proof -
  have "path_join [path_join [''/proj'', ''node_modules''], ''bad'', ''package.json'']
        = ''/proj/node_modules/bad/package.json''"
    by code_simp
  then show ?thesis by (simp add: pkgPath_of_def nodeModulesDir_def exampleEnv_def)
qed

lemma example_parse_junk: "JSON_parse (exampleEnv fs) ''junk'' = None"
  by (simp add: exampleEnv_def)

lemma example_junk:
  "manifest_unreadable (exampleEnv [''/proj/node_modules/bad/package.json'' \<mapsto> ''junk'']) ''bad''"
  by (simp add: manifest_unreadable_def example_pkgPath_bad example_files example_parse_junk)

text \<open>
  The bundler rejects the build of the package \<open>bad\<close> with the message
  \<open>Could not resolve\<close>: \<open>optimizeDep\<close> throws that very error, and it does not name the
  package.
\<close>

theorem bundler_error_names_no_package:
  "fst (optimizeDep (build (exampleEnv [''/proj/node_modules/bad/package.json'' \<mapsto> ''{}'']))
          ''bad'' ''/proj/node_modules/bad/index.js'' emptyServer)
   = Thrown (BuildFailure ''Could not resolve'')
   \<and> \<not> names_package (BuildFailure ''Could not resolve'') ''bad''"
  by (simp add: optimizeDep_miss emptyServer_def example_bad_build optimizeDep_settle_def
      console_error_def startsWith_def)

text \<open>
  Claim C7, as amended. When the bundler rejects the build of a package that has no
  entry in the cache, \<open>optimizeDep\<close> fails by throwing the bundler's own error again,
  unchanged, after the console line \<open>Failed to optimize: <name>\<close>, which names the
  package; the request handler answers with status 404 and the body
  \<open>Module not found: <name>\<close>. The cache is left as it was, with no entry for the
  package, so the next call for the same name calls the bundler again (two calls in
  all). A build that fails leaves the cache as it was also when other requests came in
  between (last part: any ticket, any state).
\<close>

theorem bundler_failure_not_cached:
  assumes "depCache srv ident = None" and "bundler filepath = Inl err"
  shows "fst (optimizeDep bundler ident filepath srv) = Thrown err
       \<and> depCache (snd (optimizeDep bundler ident filepath srv)) = depCache srv
       \<and> console (snd (optimizeDep bundler ident filepath srv))
         = console srv @ [''Optimizing dependency: '' @ ident, ''Failed to optimize: '' @ ident]
       \<and> calls_for ident
           (snd (optimizeDep bundler' ident filepath' (snd (optimizeDep bundler ident filepath srv))))
         = calls_for ident srv + 2
       \<and> (resolveBareModule_try en ident = Inr filepath \<and> build en = bundler \<longrightarrow>
            fst (modulesHandler en (''/@modules/'' @ ident) srv)
            = \<lparr>status = Some 404, ctype = None, body = Some (''Module not found: '' @ ident)\<rparr>)
       \<and> depCache (snd (optimizeDep_settle ticket (Inl err') srv0)) = depCache srv0"
proof -
  let ?srv' = "snd (optimizeDep bundler ident filepath srv)"
  have f1: "fst (optimizeDep bundler ident filepath srv) = Thrown err"
    using assms by (rule optimizeDep_miss_failure(1))
  have f2: "depCache ?srv' = depCache srv"
    using assms by (rule optimizeDep_miss_failure(2))
  have f3: "console ?srv'
            = console srv @ [''Optimizing dependency: '' @ ident, ''Failed to optimize: '' @ ident]"
    using assms by (rule optimizeDep_miss_failure(3))
  have f4: "calls_for ident ?srv' = calls_for ident srv + 1"
    using assms by (rule optimizeDep_miss_failure(4))
  have none: "depCache ?srv' ident = None"
    using f2 assms(1) by simp
  have "calls_for ident (snd (optimizeDep bundler' ident filepath' ?srv')) = calls_for ident ?srv' + 1"
    using none by (rule optimizeDep_miss_calls)
  then have again: "calls_for ident (snd (optimizeDep bundler' ident filepath' ?srv')) = calls_for ident srv + 2"
    using f4 by simp
  have handler: "fst (modulesHandler en (''/@modules/'' @ ident) srv)
                 = \<lparr>status = Some 404, ctype = None, body = Some (''Module not found: '' @ ident)\<rparr>"
    if "resolveBareModule_try en ident = Inr filepath" and "build en = bundler"
    unfolding modulesHandler_resolved [OF that(1)] using that(2) f1
    by (cases "optimizeDep bundler ident filepath srv") (auto simp: notFound_def)
  show ?thesis
    using f1 f2 f3 again handler settle_failure_keeps_cache [of ticket err' srv0] by simp
qed

theorem bundler_failure_not_cached_witness:
  "depCache emptyServer ''bad'' = None
   \<and> build (exampleEnv [''/proj/node_modules/bad/package.json'' \<mapsto> ''{}''])
        ''/proj/node_modules/bad/index.js'' = Inl (BuildFailure ''Could not resolve'')
   \<and> resolveBareModule_try (exampleEnv [''/proj/node_modules/bad/package.json'' \<mapsto> ''{}'']) ''bad''
        = Inr ''/proj/node_modules/bad/index.js''
   \<and> fst (modulesHandler (exampleEnv [''/proj/node_modules/bad/package.json'' \<mapsto> ''{}''])
             (''/@modules/'' @ ''bad'') emptyServer)
     = \<lparr>status = Some 404, ctype = None, body = Some ''Module not found: bad''\<rparr>
   \<and> console (snd (optimizeDep (build (exampleEnv [''/proj/node_modules/bad/package.json'' \<mapsto> ''{}'']))
                        ''bad'' ''/proj/node_modules/bad/index.js'' emptyServer))
     = [''Optimizing dependency: bad'', ''Failed to optimize: bad'']
   \<and> depCache (snd (optimizeDep (build (exampleEnv [''/proj/node_modules/bad/package.json'' \<mapsto> ''{}'']))
                        ''bad'' ''/proj/node_modules/bad/index.js'' emptyServer)) ''bad'' = None"
  using bundler_failure_not_cached
    [where srv = emptyServer and ident = "''bad''"
       and bundler = "build (exampleEnv [''/proj/node_modules/bad/package.json'' \<mapsto> ''{}''])"
       and filepath = "''/proj/node_modules/bad/index.js''"
       and err = "BuildFailure ''Could not resolve''"
       and en = "exampleEnv [''/proj/node_modules/bad/package.json'' \<mapsto> ''{}'']"]
    example_bad_resolves example_bad_build
  by (simp add: emptyServer_def)

text \<open>
  The manifest of the package \<open>bad\<close> is the text \<open>junk\<close>: \<open>resolveBareModule\<close> throws
  the syntax error of \<open>JSON.parse\<close>, which does not name the package.
\<close>

theorem syntax_error_names_no_package:
  "resolveBareModule (exampleEnv [''/proj/node_modules/bad/package.json'' \<mapsto> ''junk'']) ''bad''
     emptyServer
   = (Inl JSONSyntaxError, emptyServer\<lparr>console := [''Cannot resolve bare module: bad'']\<rparr>)
   \<and> \<not> names_package JSONSyntaxError ''bad''"
  using unreadable_try [OF example_junk]
  by (simp add: resolveBareModule_def console_error_def emptyServer_def example_files example_pkgPath_bad)

text \<open>
  Claim C8, as amended. For every bare package name whose manifest is missing or cannot
  be parsed, \<open>resolveBareModule\<close> fails by throwing the error of the read (which
  carries the path of the manifest) or the syntax error of the parse again, unchanged,
  after the console line \<open>Cannot resolve bare module: <name>\<close>, which names the
  package. The request for \<open>/@modules/<name>\<close> is routed to the handler of bare
  modules, which catches the error and answers with status 404 and the body
  \<open>Module not found: <name>\<close>; no exception leaves the handler.
\<close>

theorem unreadable_manifest_gives_404:
  assumes "manifest_unreadable en ident"
  shows "resolveBareModule en ident srv
         = (Inl (if files en (pkgPath_of en ident) = None then ENOENT (pkgPath_of en ident)
                 else JSONSyntaxError),
            srv\<lparr>console := console srv @ [''Cannot resolve bare module: '' @ ident]\<rparr>)
       \<and> route_of (''/@modules/'' @ ident) = ModulesRoute
       \<and> modulesHandler en (''/@modules/'' @ ident) srv
         = (\<lparr>status = Some 404, ctype = None, body = Some (''Module not found: '' @ ident)\<rparr>,
            srv\<lparr>console := console srv @ [''Cannot resolve bare module: '' @ ident]\<rparr>)"
  using unreadable_try [OF assms] route_modules [of ident]
    modulesHandler_unresolved [OF unreadable_try [OF assms], of srv]
  by (simp add: resolveBareModule_def notFound_def console_error_def)

text \<open>
  The fifth example of the specification, no directory \<open>does-not-exist\<close> below
  \<open>node_modules\<close>, and a manifest that does not parse.
\<close>

theorem unreadable_manifest_gives_404_witness:
  "manifest_unreadable (exampleEnv Map.empty) ''does-not-exist''
   \<and> modulesHandler (exampleEnv Map.empty) (''/@modules/'' @ ''does-not-exist'') emptyServer
     = (\<lparr>status = Some 404, ctype = None, body = Some ''Module not found: does-not-exist''\<rparr>,
        emptyServer\<lparr>console := [''Cannot resolve bare module: does-not-exist'']\<rparr>)
   \<and> fst (resolveBareModule (exampleEnv Map.empty) ''does-not-exist'' emptyServer)
     = Inl (ENOENT ''/proj/node_modules/does-not-exist/package.json'')
   \<and> manifest_unreadable (exampleEnv [''/proj/node_modules/bad/package.json'' \<mapsto> ''junk'']) ''bad''
   \<and> modulesHandler (exampleEnv [''/proj/node_modules/bad/package.json'' \<mapsto> ''junk''])
        (''/@modules/'' @ ''bad'') emptyServer
     = (\<lparr>status = Some 404, ctype = None, body = Some ''Module not found: bad''\<rparr>,
        emptyServer\<lparr>console := [''Cannot resolve bare module: bad'']\<rparr>)
   \<and> fst (resolveBareModule (exampleEnv [''/proj/node_modules/bad/package.json'' \<mapsto> ''junk''])
            ''bad'' emptyServer)
     = Inl JSONSyntaxError"
  using unreadable_manifest_gives_404 [OF example_missing, of "''does-not-exist''" emptyServer]
    unreadable_manifest_gives_404 [OF example_junk, of emptyServer]
    example_missing [of "''does-not-exist''"] example_junk
  by (simp add: example_pkgPath example_pkgPath_bad example_files emptyServer_def)

text \<open>
  Claim C10. For a request to \<open>/@modules/<name>\<close> the handler calls
  \<open>resolveBareModule\<close>, which reads and parses the manifest, before \<open>optimizeDep\<close> looks
  into the cache. So with a text for the package in the cache: where the manifest
  cannot be read or parsed, the answer is 404 and not the cached text; where the manifest
  resolves, the answer is the cached text.
\<close>

theorem resolver_runs_before_cache:
  assumes "depCache srv ident = Some cached"
  shows "(manifest_unreadable en ident \<longrightarrow>
            modulesHandler en (''/@modules/'' @ ident) srv
            = (notFound ident, console_error (''Cannot resolve bare module: '' @ ident) srv))
       \<and> (resolveBareModule_try en ident = Inr modulePath \<longrightarrow>
            modulesHandler en (''/@modules/'' @ ident) srv
            = (\<lparr>status = None, ctype = Some ''application/javascript'', body = Some cached\<rparr>, srv))"
proof (intro conjI impI)
  assume "manifest_unreadable en ident"
  then have "resolveBareModule_try en ident
         = Inl (if files en (pkgPath_of en ident) = None then ENOENT (pkgPath_of en ident)
                else JSONSyntaxError)"
    by (rule unreadable_try)
  then show "modulesHandler en (''/@modules/'' @ ident) srv
            = (notFound ident, console_error (''Cannot resolve bare module: '' @ ident) srv)"
    by (rule modulesHandler_unresolved)
next
  assume r: "resolveBareModule_try en ident = Inr modulePath"
  show "modulesHandler en (''/@modules/'' @ ident) srv
        = (\<lparr>status = None, ctype = Some ''application/javascript'', body = Some cached\<rparr>, srv)"
    unfolding modulesHandler_resolved [OF r] optimizeDep_hit [OF assms] by simp
qed

theorem resolver_runs_before_cache_witness:
  "depCache (emptyServer\<lparr>depCache := [''bad'' \<mapsto> ''export {}'']\<rparr>) ''bad'' = Some ''export {}''
   \<and> manifest_unreadable (exampleEnv Map.empty) ''bad''
   \<and> fst (modulesHandler (exampleEnv Map.empty) (''/@modules/'' @ ''bad'')
            (emptyServer\<lparr>depCache := [''bad'' \<mapsto> ''export {}'']\<rparr>))
     = \<lparr>status = Some 404, ctype = None, body = Some ''Module not found: bad''\<rparr>
   \<and> modulesHandler (exampleEnv [''/proj/node_modules/bad/package.json'' \<mapsto> ''{}''])
        (''/@modules/'' @ ''bad'') (emptyServer\<lparr>depCache := [''bad'' \<mapsto> ''export {}'']\<rparr>)
     = (\<lparr>status = None, ctype = Some ''application/javascript'', body = Some ''export {}''\<rparr>,
        emptyServer\<lparr>depCache := [''bad'' \<mapsto> ''export {}'']\<rparr>)"
  using resolver_runs_before_cache
      [where srv = "emptyServer\<lparr>depCache := [''bad'' \<mapsto> ''export {}'']\<rparr>" and ident = "''bad''"
         and cached = "''export {}''" and en = "exampleEnv Map.empty"]
    resolver_runs_before_cache
      [where srv = "emptyServer\<lparr>depCache := [''bad'' \<mapsto> ''export {}'']\<rparr>" and ident = "''bad''"
         and cached = "''export {}''"
         and en = "exampleEnv [''/proj/node_modules/bad/package.json'' \<mapsto> ''{}'']"
         and modulePath = "''/proj/node_modules/bad/index.js''"]
    example_bad_resolves example_missing [of "''bad''"]
  by (simp add: notFound_def)

end
